theory Spec2Isabelle
  imports Main "HOL-Library.Word"
begin

section \<open>Event streams of a KES client (log.go)\<close>

text \<open>
  The file log.go defines two pull iterators over a stream of JSON records,
  \<open>ErrorStream\<close> and \<open>AuditStream\<close>, each with the operations \<open>Next\<close>, \<open>Event\<close>,
  \<open>WriteTo\<close> and \<open>Close\<close>. The two structs have the same fields and differ only in
  the type of the decoded record and of the event, so one polymorphic record holds
  the state of both; every method is embedded separately, once per receiver type.
\<close>

subsection \<open>Errors\<close>

text \<open>
  Go's \<open>error\<close> values. \<open>EOF\<close> is \<open>io.EOF\<close>; the others are what the JSON decoder,
  the text unmarshalers, the input source, its closer and the output sink report.
  An \<open>error\<close> variable of the source is an \<open>error option\<close>, \<open>None\<close> being \<open>nil\<close>.
\<close>

datatype error =
    EOF
  | ErrUnexpectedEOF
  | SyntaxError string
  | UnmarshalTypeError string string
  | ParseError string
  | IOError string

text \<open>The test \<open>err != nil\<close>.\<close>

fun notnil :: "error option \<Rightarrow> bool" where
  "notnil None = False"
| "notnil (Some e) = True"

subsection \<open>The input: what \<open>json.Decoder.Decode\<close> delivers\<close>

text \<open>
  A stream reads its input only through \<open>s.decoder.Decode(&resp)\<close>, with a fresh
  \<open>resp\<close> at every call. The decoder is the standard library's; its state is
  modelled by the outcomes that the rest of the input will produce:
  \<^item> \<open>Rec r\<close>: a complete JSON value that unmarshals into the record \<open>r\<close>;
  \<^item> \<open>Malformed e\<close>: a complete JSON value that does not unmarshal (a wrong type, a
    bad IP, timestamp or duration). Decode returns \<open>e\<close> and has consumed the value:
    the decoder does not keep unmarshal errors and goes on with the next value;
  \<^item> \<open>Broken e\<close>: a syntax error or a failure of the reader. The decoder keeps this
    error and returns it at every later call.
  At the end of the input Decode returns \<open>io.EOF\<close>, at every call. The input is
  finite: a source that never ends, or blocks, is outside this model.
\<close>

datatype 'r item = Rec 'r | Malformed error | Broken error

type_synonym 'r Decoder = "'r item list"

fun Decode :: "'r Decoder \<Rightarrow> (error + 'r) \<times> 'r Decoder" where
  "Decode [] = (Inl EOF, [])"
| "Decode (Rec r # rest) = (Inr r, rest)"
| "Decode (Malformed e # rest) = (Inl e, rest)"
| "Decode (Broken e # rest) = (Inl e, Broken e # rest)"

subsection \<open>The closer of the input\<close>

text \<open>
  An \<open>io.Closer\<close>: \<open>Close()\<close> returns \<open>close_err\<close>; \<open>close_calls\<close> counts the
  calls, so that closing the resource twice is visible.
\<close>

record closer =
  close_err :: "error option"
  close_calls :: nat

definition closer_Close :: "closer \<Rightarrow> error option \<times> closer" where
  "closer_Close c = (close_err c, c\<lparr>close_calls := Suc (close_calls c)\<rparr>)"

text \<open>
  An \<open>io.Reader\<close> as \<open>NewErrorStream\<close> and \<open>NewAuditStream\<close> receive it: the
  input it will deliver and, when the reader is also an \<open>io.Closer\<close>, its closer.
\<close>

record 'r reader =
  input :: "'r Decoder"
  as_closer :: "closer option"

subsection \<open>The output sink and the counting writer\<close>

text \<open>
  An \<open>io.Writer\<close>: it accepts every byte (\<open>room = None\<close>) or only \<open>k\<close> more bytes
  (\<open>room = Some k\<close>); a write that does not fit writes what fits and returns the
  number of bytes written with the error \<open>full\<close>.
\<close>

record writer =
  sunk :: string
  room :: "nat option"
  full :: error

definition writer_Write :: "writer \<Rightarrow> string \<Rightarrow> (nat \<times> error option) \<times> writer" where
  "writer_Write w p =
    (case room w of
       None \<Rightarrow> ((length p, None), w\<lparr>sunk := sunk w @ p\<rparr>)
     | Some k \<Rightarrow>
         if length p \<le> k
         then ((length p, None), w\<lparr>sunk := sunk w @ p, room := Some (k - length p)\<rparr>)
         else ((k, Some (full w)), w\<lparr>sunk := sunk w @ take k p, room := Some 0\<rparr>))"

text \<open>\<open>countWriter\<close>: \<open>N\<close> is an \<open>int64\<close>, so the addition wraps.\<close>

record countWriter =
  W :: writer
  N :: "64 word"

definition countWriter_Write :: "countWriter \<Rightarrow> string \<Rightarrow> (nat \<times> error option) \<times> countWriter" where
  "countWriter_Write w p =
    (let ((n, e), w') = writer_Write (W w) p
     in ((n, e), w\<lparr>W := w', N := N w + word_of_nat n\<rparr>))"

text \<open>
  \<open>json.Encoder.Encode\<close> on a counting writer: the record is marshalled (by \<open>enc\<close>,
  a parameter: the JSON text of the record and a newline) and written with one call
  of \<open>Write\<close>, whose error is returned.
\<close>

definition Encode :: "('r \<Rightarrow> string) \<Rightarrow> countWriter \<Rightarrow> 'r \<Rightarrow> error option \<times> countWriter" where
  "Encode enc cw resp = (let ((n, e), cw') = countWriter_Write cw (enc resp) in (e, cw'))"

subsection \<open>Stream state\<close>

record ('r, 'e) stream =
  decoder :: "'r Decoder"
  closer :: "closer option"
  event :: 'e
  err :: "error option"
  closed :: bool

subsection \<open>ErrorStream\<close>

record ErrorEvent =
  Message :: string

text \<open>The local type \<open>Response\<close> of \<open>ErrorStream.Next\<close> and \<open>ErrorStream.WriteTo\<close>.\<close>

record ErrorResponse =
  resp_Message :: string

type_synonym ErrorStream = "(ErrorResponse, ErrorEvent) stream"

text \<open>The conversion \<open>ErrorEvent(resp)\<close>.\<close>

definition ErrorEvent_of :: "ErrorResponse \<Rightarrow> ErrorEvent" where
  "ErrorEvent_of resp = \<lparr>Message = resp_Message resp\<rparr>"

definition NewErrorStream :: "ErrorResponse reader \<Rightarrow> ErrorStream" where
  "NewErrorStream r =
    (let s = \<lparr>decoder = input r, closer = None, event = \<lparr>Message = []\<rparr>,
              err = None, closed = False\<rparr>
     in case as_closer r of
          Some c \<Rightarrow> s\<lparr>closer := Some c\<rparr>
        | None \<Rightarrow> s)"

definition ErrorStream_Event :: "ErrorStream \<Rightarrow> ErrorEvent" where
  "ErrorStream_Event s = event s"

definition ErrorStream_Message :: "ErrorStream \<Rightarrow> string" where
  "ErrorStream_Message s = Message (event s)"

definition ErrorStream_Close :: "ErrorStream \<Rightarrow> error option \<times> ErrorStream" where
  "ErrorStream_Close s =
    (if \<not> closed s then
       (let s1 = s\<lparr>closed := True\<rparr> in
        case closer s1 of
          Some c \<Rightarrow>
            (let (e, c') = closer_Close c;
                 s2 = s1\<lparr>closer := Some c'\<rparr>;
                 s3 = (if err s2 = None then s2\<lparr>err := e\<rparr> else s2)
             in (e, s3))
        | None \<Rightarrow> (err s1, s1))
     else (err s, s))"

definition ErrorStream_Next :: "ErrorStream \<Rightarrow> bool \<times> ErrorStream" where
  "ErrorStream_Next s =
    (if notnil (err s) \<or> closed s then (False, s)
     else
       (case Decode (decoder s) of
          (Inl e, d) \<Rightarrow>
            (let s1 = s\<lparr>decoder := d\<rparr> in
             if e = EOF
             then (let (ce, s2) = ErrorStream_Close s1 in (False, s2\<lparr>err := ce\<rparr>))
             else (False, s1\<lparr>err := Some e\<rparr>))
        | (Inr resp, d) \<Rightarrow> (True, s\<lparr>decoder := d, event := ErrorEvent_of resp\<rparr>)))"

lemma Decode_Inr_shorter: "Decode d = (Inr r, d') \<Longrightarrow> length d' < length d"
  by (cases d rule: Decode.cases) auto

text \<open>
  The loop of \<open>ErrorStream.WriteTo\<close>, from a counting writer; the result is the
  returned pair, the stream and the counting writer (whose \<open>W\<close> is the sink).
\<close>

function ErrorStream_WriteTo_loop ::
  "(ErrorResponse \<Rightarrow> string) \<Rightarrow> ErrorStream \<Rightarrow> countWriter
    \<Rightarrow> (64 word \<times> error option) \<times> ErrorStream \<times> countWriter" where
  "ErrorStream_WriteTo_loop enc s cw =
    (case Decode (decoder s) of
       (Inl e, d) \<Rightarrow>
         (let s1 = s\<lparr>decoder := d\<rparr>;
              s3 = (if e = EOF
                    then (let (ce, s2) = ErrorStream_Close s1 in s2\<lparr>err := ce\<rparr>)
                    else s1\<lparr>err := Some e\<rparr>)
          in ((N cw, err s3), s3, cw))
     | (Inr resp, d) \<Rightarrow>
         (case Encode enc cw resp of
            (Some e, cw') \<Rightarrow> ((N cw', Some e), s\<lparr>decoder := d, err := Some e\<rparr>, cw')
          | (None, cw') \<Rightarrow> ErrorStream_WriteTo_loop enc (s\<lparr>decoder := d\<rparr>) cw'))"
  by pat_completeness auto
termination
  by (relation "measure (\<lambda>(enc, s, cw). length (decoder s))")
     (auto dest: Decode_Inr_shorter [OF sym])

declare ErrorStream_WriteTo_loop.simps [simp del]

definition ErrorStream_WriteTo ::
  "(ErrorResponse \<Rightarrow> string) \<Rightarrow> ErrorStream \<Rightarrow> writer
    \<Rightarrow> (64 word \<times> error option) \<times> ErrorStream \<times> writer" where
  "ErrorStream_WriteTo enc s w =
    (let (res, s', cw) = ErrorStream_WriteTo_loop enc s \<lparr>W = w, N = 0\<rparr>
     in (res, s', W cw))"

text \<open>
  The caller's side of the iterator. \<open>ErrorStream_Nexts n\<close> calls \<open>Next\<close> \<open>n\<close> times
  and records, for each call, what it returned and what \<open>Event()\<close> returns after
  it. \<open>ErrorStream_drain\<close> is the loop \<open>for s.Next() { }\<close>: it calls \<open>Next\<close> until
  it returns false.
\<close>

fun ErrorStream_Nexts :: "nat \<Rightarrow> ErrorStream \<Rightarrow> (bool \<times> ErrorEvent) list \<times> ErrorStream" where
  "ErrorStream_Nexts 0 s = ([], s)"
| "ErrorStream_Nexts (Suc n) s =
    (let (more, s1) = ErrorStream_Next s;
         (outs, s2) = ErrorStream_Nexts n s1
     in ((more, ErrorStream_Event s1) # outs, s2))"

lemma ErrorStream_Next_shorter:
  "ErrorStream_Next s = (True, s') \<Longrightarrow> length (decoder s') < length (decoder s)"
  by (auto simp: ErrorStream_Next_def Let_def
      split: if_splits prod.splits sum.splits dest: Decode_Inr_shorter)

function ErrorStream_drain :: "ErrorStream \<Rightarrow> ErrorStream" where
  "ErrorStream_drain s =
    (let (more, s') = ErrorStream_Next s in if more then ErrorStream_drain s' else s')"
  by pat_completeness auto
termination
  by (relation "measure (\<lambda>s. length (decoder s))")
     (auto dest: ErrorStream_Next_shorter [OF sym])

declare ErrorStream_drain.simps [simp del]

subsection \<open>AuditStream\<close>

text \<open>
  \<open>time.Time\<close>: the seconds since January 1 of year 1, 00:00:00 UTC, the nanoseconds
  within the second and the zone's offset; the zero value is the zero \<open>Time\<close>.
  \<open>net.IP\<close> is a slice of bytes (\<open>nil\<close> is the empty list), \<open>time.Duration\<close> an
  \<open>int64\<close> of nanoseconds and \<open>int\<close> has 64 bits; no arithmetic is done on them,
  they are integers that the decoder keeps in the range of \<open>int64\<close>.
\<close>

record Time =
  seconds :: int
  nanos :: nat
  zone_offset :: int

type_synonym IP = "8 word list"

text \<open>
  Modelled from the spec: the type \<open>Identity\<close> is declared in another file of the
  package; section 6 of the specification gives the wire field \<open>identity\<close> as a
  string.
\<close>

type_synonym Identity = string

record AuditEvent =
  Timestamp :: Time
  APIPath :: string
  ClientIP :: IP
  ClientIdentity :: Identity
  StatusCode :: int
  ResponseTime :: int

text \<open>
  The local type \<open>Response\<close> of \<open>AuditStream.Next\<close> and \<open>AuditStream.WriteTo\<close>,
  with its two anonymous structs.
\<close>

record AuditRequest =
  req_IP :: IP
  req_APIPath :: string
  req_Identity :: Identity

record AuditReply =
  rep_StatusCode :: int
  rep_Time :: int

record AuditResponse =
  resp_Timestamp :: Time
  resp_Request :: AuditRequest
  resp_Response :: AuditReply

type_synonym AuditStream = "(AuditResponse, AuditEvent) stream"

definition zero_Time :: Time where
  "zero_Time = \<lparr>seconds = 0, nanos = 0, zone_offset = 0\<rparr>"

definition zero_AuditEvent :: AuditEvent where
  "zero_AuditEvent =
    \<lparr>Timestamp = zero_Time, APIPath = [], ClientIP = [], ClientIdentity = [],
     StatusCode = 0, ResponseTime = 0\<rparr>"

text \<open>The composite literal \<open>AuditEvent{...}\<close> of \<open>AuditStream.Next\<close>.\<close>

definition AuditEvent_of :: "AuditResponse \<Rightarrow> AuditEvent" where
  "AuditEvent_of resp =
    \<lparr>Timestamp = resp_Timestamp resp,
     APIPath = req_APIPath (resp_Request resp),
     ClientIP = req_IP (resp_Request resp),
     ClientIdentity = req_Identity (resp_Request resp),
     StatusCode = rep_StatusCode (resp_Response resp),
     ResponseTime = rep_Time (resp_Response resp)\<rparr>"

definition NewAuditStream :: "AuditResponse reader \<Rightarrow> AuditStream" where
  "NewAuditStream r =
    (let s = \<lparr>decoder = input r, closer = None, event = zero_AuditEvent,
              err = None, closed = False\<rparr>
     in case as_closer r of
          Some c \<Rightarrow> s\<lparr>closer := Some c\<rparr>
        | None \<Rightarrow> s)"

definition AuditStream_Event :: "AuditStream \<Rightarrow> AuditEvent" where
  "AuditStream_Event s = event s"

definition AuditStream_Close :: "AuditStream \<Rightarrow> error option \<times> AuditStream" where
  "AuditStream_Close s =
    (if \<not> closed s then
       (let s1 = s\<lparr>closed := True\<rparr> in
        case closer s1 of
          Some c \<Rightarrow>
            (let (e, c') = closer_Close c;
                 s2 = s1\<lparr>closer := Some c'\<rparr>;
                 s3 = (if err s2 = None then s2\<lparr>err := e\<rparr> else s2)
             in (e, s3))
        | None \<Rightarrow> (err s1, s1))
     else (err s, s))"

definition AuditStream_Next :: "AuditStream \<Rightarrow> bool \<times> AuditStream" where
  "AuditStream_Next s =
    (if closed s \<or> notnil (err s) then (False, s)
     else
       (case Decode (decoder s) of
          (Inl e, d) \<Rightarrow>
            (let s1 = s\<lparr>decoder := d\<rparr> in
             if e = EOF
             then (let (ce, s2) = AuditStream_Close s1 in (False, s2\<lparr>err := ce\<rparr>))
             else (False, s1\<lparr>err := Some e\<rparr>))
        | (Inr resp, d) \<Rightarrow> (True, s\<lparr>decoder := d, event := AuditEvent_of resp\<rparr>)))"

function AuditStream_WriteTo_loop ::
  "(AuditResponse \<Rightarrow> string) \<Rightarrow> AuditStream \<Rightarrow> countWriter
    \<Rightarrow> (64 word \<times> error option) \<times> AuditStream \<times> countWriter" where
  "AuditStream_WriteTo_loop enc s cw =
    (case Decode (decoder s) of
       (Inl e, d) \<Rightarrow>
         (let s1 = s\<lparr>decoder := d\<rparr>;
              s3 = (if e = EOF
                    then (let (ce, s2) = AuditStream_Close s1 in s2\<lparr>err := ce\<rparr>)
                    else s1\<lparr>err := Some e\<rparr>)
          in ((N cw, err s3), s3, cw))
     | (Inr resp, d) \<Rightarrow>
         (case Encode enc cw resp of
            (Some e, cw') \<Rightarrow> ((N cw', Some e), s\<lparr>decoder := d, err := Some e\<rparr>, cw')
          | (None, cw') \<Rightarrow> AuditStream_WriteTo_loop enc (s\<lparr>decoder := d\<rparr>) cw'))"
  by pat_completeness auto
termination
  by (relation "measure (\<lambda>(enc, s, cw). length (decoder s))")
     (auto dest: Decode_Inr_shorter [OF sym])

declare AuditStream_WriteTo_loop.simps [simp del]

definition AuditStream_WriteTo ::
  "(AuditResponse \<Rightarrow> string) \<Rightarrow> AuditStream \<Rightarrow> writer
    \<Rightarrow> (64 word \<times> error option) \<times> AuditStream \<times> writer" where
  "AuditStream_WriteTo enc s w =
    (let (res, s', cw) = AuditStream_WriteTo_loop enc s \<lparr>W = w, N = 0\<rparr>
     in (res, s', W cw))"

fun AuditStream_Nexts :: "nat \<Rightarrow> AuditStream \<Rightarrow> (bool \<times> AuditEvent) list \<times> AuditStream" where
  "AuditStream_Nexts 0 s = ([], s)"
| "AuditStream_Nexts (Suc n) s =
    (let (more, s1) = AuditStream_Next s;
         (outs, s2) = AuditStream_Nexts n s1
     in ((more, AuditStream_Event s1) # outs, s2))"

lemma AuditStream_Next_shorter:
  "AuditStream_Next s = (True, s') \<Longrightarrow> length (decoder s') < length (decoder s)"
  by (auto simp: AuditStream_Next_def Let_def
      split: if_splits prod.splits sum.splits dest: Decode_Inr_shorter)

function AuditStream_drain :: "AuditStream \<Rightarrow> AuditStream" where
  "AuditStream_drain s =
    (let (more, s') = AuditStream_Next s in if more then AuditStream_drain s' else s')"
  by pat_completeness auto
termination
  by (relation "measure (\<lambda>s. length (decoder s))")
     (auto dest: AuditStream_Next_shorter [OF sym])

declare AuditStream_drain.simps [simp del]

subsection \<open>Unmarshalling an audit record\<close>

text \<open>
  What \<open>Decode(&resp)\<close> does with one complete JSON value, for the type \<open>Response\<close>
  that \<open>AuditStream.Next\<close> and \<open>AuditStream.WriteTo\<close> declare. The rules are those
  of \<open>encoding/json\<close> for the Go types of the fields:
  \<^item> a member of an object is stored in the field whose \<open>json\<close> tag equals its key,
    case folded; other members are skipped; a later member overwrites an earlier one;
  \<^item> \<open>null\<close> leaves a struct, a string or an integer as it is;
  \<^item> \<open>string\<close> and \<open>Identity\<close> take a JSON string; \<open>int\<close> and \<open>time.Duration\<close>
    (an \<open>int64\<close>) take a JSON number that is an integer literal in the range of
    \<open>int64\<close>. Any other value is an \<open>UnmarshalTypeError\<close>: the decoder saves the first
    such error, goes on with the rest of the value, and returns the error at the end
    (the error names the kind of the JSON value and the Go type, not the literal);
  \<^item> \<open>time.Time\<close> unmarshals itself (\<open>UnmarshalJSON\<close>) and \<open>net.IP\<close> unmarshals a
    JSON string (\<open>UnmarshalText\<close>); an error of theirs stops the decoding at once.
  The two parsers, of RFC 3339 timestamps and of IP addresses, are parameters.
\<close>

datatype json =
    JNull
  | JBool bool
  | JInt int
  | JFloat string
  | JString string
  | JArray "json list"
  | JObject "(string \<times> json) list"

text \<open>
  \<open>JInt\<close> is a number written as an integer literal, \<open>JFloat\<close> a number with a
  fraction or an exponent (its text); \<open>JString\<close> holds the unquoted string.
\<close>

fun json_kind :: "json \<Rightarrow> string" where
  "json_kind JNull = ''null''"
| "json_kind (JBool b) = ''bool''"
| "json_kind (JInt n) = ''number''"
| "json_kind (JFloat x) = ''number''"
| "json_kind (JString x) = ''string''"
| "json_kind (JArray xs) = ''array''"
| "json_kind (JObject ms) = ''object''"

text \<open>\<open>saveError\<close>: the decoder keeps the first error it saved.\<close>

definition saveError :: "error \<Rightarrow> error option \<Rightarrow> error option" where
  "saveError e saved = (case saved of None \<Rightarrow> Some e | Some e0 \<Rightarrow> Some e0)"

text \<open>
  \<open>foldName\<close>: the key of a member, case folded. ASCII letters fold to upper case;
  of the other runes only U+017F and U+212A fold to an ASCII letter (S and K); the
  bytes of every other rune stay as they are and equal no byte of a field name.
\<close>

definition foldByte :: "char \<Rightarrow> char" where
  "foldByte c =
    (case map_of (zip ''abcdefghijklmnopqrstuvwxyz'' ''ABCDEFGHIJKLMNOPQRSTUVWXYZ'') c of
       Some u \<Rightarrow> u
     | None \<Rightarrow> c)"

fun foldName :: "string \<Rightarrow> string" where
  "foldName (a # b # c # cs) =
    (if a = CHR 0xE2 \<and> b = CHR 0x84 \<and> c = CHR 0xAA then CHR ''K'' # foldName cs
     else if a = CHR 0xC5 \<and> b = CHR 0xBF then CHR ''S'' # foldName (c # cs)
     else foldByte a # foldName (b # c # cs))"
| "foldName [a, b] =
    (if a = CHR 0xC5 \<and> b = CHR 0xBF then [CHR ''S''] else [foldByte a, foldByte b])"
| "foldName [a] = [foldByte a]"
| "foldName [] = []"

record unmarshalers =
  parse_Time :: "string \<Rightarrow> Time option"
  parse_IP :: "string \<Rightarrow> IP option"

definition in_int64 :: "int \<Rightarrow> bool" where
  "in_int64 n = (- (2 ^ 63) \<le> n \<and> n < 2 ^ 63)"

text \<open>
  Each of the following stores one JSON value in a field: it takes the value, what
  the field holds and the error saved so far, and returns the field and the saved
  error, or \<open>Inl\<close> the error that stops the decoding.
\<close>

definition dec_string :: "json \<Rightarrow> string \<Rightarrow> error option \<Rightarrow> string \<times> error option" where
  "dec_string j cur saved =
    (case j of
       JString v \<Rightarrow> (v, saved)
     | JNull \<Rightarrow> (cur, saved)
     | _ \<Rightarrow> (cur, saveError (UnmarshalTypeError (json_kind j) ''string'') saved))"

definition dec_int :: "string \<Rightarrow> json \<Rightarrow> int \<Rightarrow> error option \<Rightarrow> int \<times> error option" where
  "dec_int ty j cur saved =
    (case j of
       JInt n \<Rightarrow>
         if in_int64 n then (n, saved)
         else (cur, saveError (UnmarshalTypeError ''number'' ty) saved)
     | JNull \<Rightarrow> (cur, saved)
     | _ \<Rightarrow> (cur, saveError (UnmarshalTypeError (json_kind j) ty) saved))"

definition dec_Time :: "unmarshalers \<Rightarrow> json \<Rightarrow> Time \<Rightarrow> error + Time" where
  "dec_Time um j cur =
    (case j of
       JNull \<Rightarrow> Inr cur
     | JString v \<Rightarrow>
         (case parse_Time um v of Some t \<Rightarrow> Inr t | None \<Rightarrow> Inl (ParseError v))
     | _ \<Rightarrow> Inl (ParseError ''Time.UnmarshalJSON: input is not a JSON string''))"

definition dec_IP ::
  "unmarshalers \<Rightarrow> json \<Rightarrow> IP \<Rightarrow> error option \<Rightarrow> error + (IP \<times> error option)" where
  "dec_IP um j cur saved =
    (case j of
       JNull \<Rightarrow> Inr ([], saved)
     | JString v \<Rightarrow>
         if v = [] then Inr ([], saved)
         else (case parse_IP um v of
                 Some ip \<Rightarrow> Inr (ip, saved)
               | None \<Rightarrow> Inl (ParseError v))
     | _ \<Rightarrow> Inr (cur, saveError (UnmarshalTypeError (json_kind j) ''net.IP'') saved))"

text \<open>The members of an object, in their order, until an error stops the decoding.\<close>

fun members ::
  "(string \<times> json \<Rightarrow> 'a \<times> error option \<Rightarrow> error + ('a \<times> error option))
    \<Rightarrow> (string \<times> json) list \<Rightarrow> 'a \<times> error option \<Rightarrow> error + ('a \<times> error option)" where
  "members f [] st = Inr st"
| "members f (m # ms) st =
    (case f m st of Inl e \<Rightarrow> Inl e | Inr st' \<Rightarrow> members f ms st')"

definition Request_member ::
  "unmarshalers \<Rightarrow> string \<times> json \<Rightarrow> AuditRequest \<times> error option
    \<Rightarrow> error + (AuditRequest \<times> error option)" where
  "Request_member um m st =
    (let (k, v) = m; (q, saved) = st; name = foldName k in
     if name = ''IP'' then
       (case dec_IP um v (req_IP q) saved of
          Inl e \<Rightarrow> Inl e
        | Inr (ip, sv) \<Rightarrow> Inr (q\<lparr>req_IP := ip\<rparr>, sv))
     else if name = ''PATH'' then
       (let (p, sv) = dec_string v (req_APIPath q) saved in Inr (q\<lparr>req_APIPath := p\<rparr>, sv))
     else if name = ''IDENTITY'' then
       (let (i, sv) = dec_string v (req_Identity q) saved in Inr (q\<lparr>req_Identity := i\<rparr>, sv))
     else Inr (q, saved))"

definition dec_Request ::
  "unmarshalers \<Rightarrow> json \<Rightarrow> AuditRequest \<Rightarrow> error option
    \<Rightarrow> error + (AuditRequest \<times> error option)" where
  "dec_Request um j q saved =
    (case j of
       JObject ms \<Rightarrow> members (Request_member um) ms (q, saved)
     | JNull \<Rightarrow> Inr (q, saved)
     | _ \<Rightarrow> Inr (q, saveError (UnmarshalTypeError (json_kind j) ''struct'') saved))"

definition Reply_member ::
  "string \<times> json \<Rightarrow> AuditReply \<times> error option \<Rightarrow> error + (AuditReply \<times> error option)" where
  "Reply_member m st =
    (let (k, v) = m; (p, saved) = st; name = foldName k in
     if name = ''CODE'' then
       (let (n, sv) = dec_int ''int'' v (rep_StatusCode p) saved
        in Inr (p\<lparr>rep_StatusCode := n\<rparr>, sv))
     else if name = ''TIME'' then
       (let (n, sv) = dec_int ''time.Duration'' v (rep_Time p) saved
        in Inr (p\<lparr>rep_Time := n\<rparr>, sv))
     else Inr (p, saved))"

definition dec_Reply ::
  "json \<Rightarrow> AuditReply \<Rightarrow> error option \<Rightarrow> error + (AuditReply \<times> error option)" where
  "dec_Reply j p saved =
    (case j of
       JObject ms \<Rightarrow> members Reply_member ms (p, saved)
     | JNull \<Rightarrow> Inr (p, saved)
     | _ \<Rightarrow> Inr (p, saveError (UnmarshalTypeError (json_kind j) ''struct'') saved))"

definition Response_member ::
  "unmarshalers \<Rightarrow> string \<times> json \<Rightarrow> AuditResponse \<times> error option
    \<Rightarrow> error + (AuditResponse \<times> error option)" where
  "Response_member um m st =
    (let (k, v) = m; (r, saved) = st; name = foldName k in
     if name = ''TIME'' then
       (case dec_Time um v (resp_Timestamp r) of
          Inl e \<Rightarrow> Inl e
        | Inr t \<Rightarrow> Inr (r\<lparr>resp_Timestamp := t\<rparr>, saved))
     else if name = ''REQUEST'' then
       (case dec_Request um v (resp_Request r) saved of
          Inl e \<Rightarrow> Inl e
        | Inr (q, sv) \<Rightarrow> Inr (r\<lparr>resp_Request := q\<rparr>, sv))
     else if name = ''RESPONSE'' then
       (case dec_Reply v (resp_Response r) saved of
          Inl e \<Rightarrow> Inl e
        | Inr (p, sv) \<Rightarrow> Inr (r\<lparr>resp_Response := p\<rparr>, sv))
     else Inr (r, saved))"

definition dec_Response ::
  "unmarshalers \<Rightarrow> json \<Rightarrow> AuditResponse \<Rightarrow> error option
    \<Rightarrow> error + (AuditResponse \<times> error option)" where
  "dec_Response um j r saved =
    (case j of
       JObject ms \<Rightarrow> members (Response_member um) ms (r, saved)
     | JNull \<Rightarrow> Inr (r, saved)
     | _ \<Rightarrow> Inr (r, saveError (UnmarshalTypeError (json_kind j) ''struct'') saved))"

text \<open>The zero value of \<open>Response\<close>: what \<open>var resp Response\<close> declares.\<close>

definition zero_AuditResponse :: AuditResponse where
  "zero_AuditResponse =
    \<lparr>resp_Timestamp = zero_Time,
     resp_Request = \<lparr>req_IP = [], req_APIPath = [], req_Identity = []\<rparr>,
     resp_Response = \<lparr>rep_StatusCode = 0, rep_Time = 0\<rparr>\<rparr>"

text \<open>
  Unmarshalling into a fresh \<open>resp\<close>: the error that stopped the decoding, else the
  saved error, else the record.
\<close>

definition unmarshal_AuditResponse :: "unmarshalers \<Rightarrow> json \<Rightarrow> error + AuditResponse" where
  "unmarshal_AuditResponse um j =
    (case dec_Response um j zero_AuditResponse None of
       Inl e \<Rightarrow> Inl e
     | Inr (r, Some e) \<Rightarrow> Inl e
     | Inr (r, None) \<Rightarrow> Inr r)"

text \<open>
  The input as bytes on the wire: complete JSON values, and text that is not JSON
  (or a failing read), where the decoder stops for good. \<open>json_Decoder\<close> gives the
  outcomes of \<open>Decode\<close> for such an input.
\<close>

datatype wire = Value json | Invalid error

fun wire_item :: "(json \<Rightarrow> error + 'r) \<Rightarrow> wire \<Rightarrow> 'r item" where
  "wire_item unm (Value j) = (case unm j of Inr r \<Rightarrow> Rec r | Inl e \<Rightarrow> Malformed e)"
| "wire_item unm (Invalid e) = Broken e"

definition json_Decoder :: "(json \<Rightarrow> error + 'r) \<Rightarrow> wire list \<Rightarrow> 'r Decoder" where
  "json_Decoder unm ws = map (wire_item unm) ws"

subsection \<open>Conditions on the environment, and an invariant\<close>

text \<open>The closer, when there is one, closes without error.\<close>

fun close_succeeds :: "closer option \<Rightarrow> bool" where
  "close_succeeds None = True"
| "close_succeeds (Some c) = (close_err c = None)"

text \<open>
  The closer has been called once if the stream is closed and never if it is not.
\<close>

definition closed_once :: "('r, 'e) stream \<Rightarrow> bool" where
  "closed_once s =
    (case closer s of
       None \<Rightarrow> True
     | Some c \<Rightarrow> close_calls c = (if closed s then 1 else 0))"

subsection \<open>Sample inputs\<close>

text \<open>
  A stream in the state Errored: the input was one record whose \<open>message\<close> is a
  number, from a reader that can be closed and closes without error, and \<open>Next\<close> has
  been called once. The decoder has consumed the record and is at the end of the
  input.
\<close>

definition errored_ErrorStream :: ErrorStream where
  "errored_ErrorStream =
    snd (ErrorStream_Next (NewErrorStream
      \<lparr>input = [Malformed (UnmarshalTypeError ''number'' ''string'')],
       as_closer = Some \<lparr>close_err = None, close_calls = 0\<rparr>\<rparr>))"

text \<open>The same for an audit stream: the \<open>time\<close> of the response was a string.\<close>

definition errored_AuditStream :: AuditStream where
  "errored_AuditStream =
    snd (AuditStream_Next (NewAuditStream
      \<lparr>input = [Malformed (UnmarshalTypeError ''string'' ''time.Duration'')],
       as_closer = Some \<lparr>close_err = None, close_calls = 0\<rparr>\<rparr>))"

text \<open>A sink that accepts everything, and one that accepts nothing.\<close>

definition open_sink :: writer where
  "open_sink = \<lparr>sunk = [], room = None, full = IOError ''short write''\<rparr>"

definition full_sink :: writer where
  "full_sink = \<lparr>sunk = [], room = Some 0, full = IOError ''short write''\<rparr>"

text \<open>
  The text that the encoder writes for an error record whose message needs no
  escaping, and a stand-in for the text of an audit record: its path and a newline.
\<close>

definition quoted :: "string \<Rightarrow> string" where
  "quoted x = CHR 0x22 # x @ [CHR 0x22]"

definition encode_ErrorResponse :: "ErrorResponse \<Rightarrow> string" where
  "encode_ErrorResponse r =
    ''{'' @ quoted ''message'' @ '':'' @ quoted (resp_Message r) @ ''}'' @ [CHR 0x0A]"

definition encode_path :: "AuditResponse \<Rightarrow> string" where
  "encode_path r = req_APIPath (resp_Request r) @ [CHR 0x0A]"

text \<open>
  The audit record of the specification's scenario, with the value of
  \<open>response.time\<close> left open, and parsers that know its timestamp and its address:
  2024-01-01T00:00:00Z is 63839664000 seconds after the beginning of year 1, and
  10.0.0.1 is parsed into the 16 bytes of an IPv4-mapped address.
\<close>

definition audit_record :: "json \<Rightarrow> json" where
  "audit_record t =
    JObject
      [(''time'', JString ''2024-01-01T00:00:00Z''),
       (''request'', JObject
          [(''ip'', JString ''10.0.0.1''),
           (''path'', JString ''/v1/key/create''),
           (''identity'', JString ''abc123'')]),
       (''response'', JObject [(''code'', JInt 200), (''time'', t)])]"

definition sample_Time :: Time where
  "sample_Time = \<lparr>seconds = 63839664000, nanos = 0, zone_offset = 0\<rparr>"

definition sample_IP :: IP where
  "sample_IP = [0, 0, 0, 0, 0, 0, 0, 0, 0, 0, 255, 255, 10, 0, 0, 1]"

definition sample_unmarshalers :: unmarshalers where
  "sample_unmarshalers =
    \<lparr>parse_Time = (\<lambda>x. if x = ''2024-01-01T00:00:00Z'' then Some sample_Time else None),
     parse_IP = (\<lambda>x. if x = ''10.0.0.1'' then Some sample_IP else None)\<rparr>"

subsection \<open>Lemmas on the writer and the invariant\<close>

lemma Encode_unbounded:
  "room (W cw) = None \<Longrightarrow>
   Encode enc cw r =
     (None, cw\<lparr>W := (W cw)\<lparr>sunk := sunk (W cw) @ enc r\<rparr>,
               N := N cw + word_of_nat (length (enc r))\<rparr>)"
  by (simp add: Encode_def countWriter_Write_def writer_Write_def)

lemma int64_of_nat: "n < 2 ^ 63 \<Longrightarrow> sint (word_of_nat n :: 64 word) = int n"
  by (simp add: signed_of_nat signed_take_bit_int_eq_self)

lemma closed_once_update [simp]:
  "closed_once (s\<lparr>decoder := d\<rparr>) = closed_once s"
  "closed_once (s\<lparr>err := e\<rparr>) = closed_once s"
  "closed_once (s\<lparr>event := x\<rparr>) = closed_once s"
  by (simp_all add: closed_once_def)

subsection \<open>The sample record, unmarshalled\<close>

lemma fold_names:
  "foldName ''time'' = ''TIME''" "foldName ''request'' = ''REQUEST''"
  "foldName ''response'' = ''RESPONSE''" "foldName ''ip'' = ''IP''"
  "foldName ''path'' = ''PATH''" "foldName ''identity'' = ''IDENTITY''"
  "foldName ''code'' = ''CODE''"
  by (simp_all add: foldByte_def)

lemma dec_Request_sample:
  assumes "parse_IP um ''10.0.0.1'' = Some ip"
  shows "dec_Request um
      (JObject [(''ip'', JString ''10.0.0.1''), (''path'', JString ''/v1/key/create''),
                (''identity'', JString ''abc123'')])
      \<lparr>req_IP = [], req_APIPath = [], req_Identity = []\<rparr> None =
    Inr (\<lparr>req_IP = ip, req_APIPath = ''/v1/key/create'', req_Identity = ''abc123''\<rparr>, None)"
  using assms
  by (simp add: dec_Request_def Request_member_def dec_IP_def dec_string_def fold_names
      del: foldName.simps)

lemma dec_Reply_ns:
  "dec_Reply (JObject [(''code'', JInt 200), (''time'', JInt 15000000)])
      \<lparr>rep_StatusCode = 0, rep_Time = 0\<rparr> None =
    Inr (\<lparr>rep_StatusCode = 200, rep_Time = 15000000\<rparr>, None)"
  by (simp add: dec_Reply_def Reply_member_def dec_int_def in_int64_def fold_names
      del: foldName.simps)

lemma dec_Reply_15ms:
  "dec_Reply (JObject [(''code'', JInt 200), (''time'', JString ''15ms'')])
      \<lparr>rep_StatusCode = 0, rep_Time = 0\<rparr> None =
    Inr (\<lparr>rep_StatusCode = 200, rep_Time = 0\<rparr>,
         Some (UnmarshalTypeError ''string'' ''time.Duration''))"
  by (simp add: dec_Reply_def Reply_member_def dec_int_def in_int64_def fold_names
      saveError_def del: foldName.simps)

lemma unmarshal_audit_record_ns:
  assumes "parse_Time um ''2024-01-01T00:00:00Z'' = Some ts" "parse_IP um ''10.0.0.1'' = Some ip"
  shows "unmarshal_AuditResponse um (audit_record (JInt 15000000)) =
    Inr \<lparr>resp_Timestamp = ts,
         resp_Request = \<lparr>req_IP = ip, req_APIPath = ''/v1/key/create'', req_Identity = ''abc123''\<rparr>,
         resp_Response = \<lparr>rep_StatusCode = 200, rep_Time = 15000000\<rparr>\<rparr>"
  using assms(1)
  by (simp add: unmarshal_AuditResponse_def audit_record_def dec_Response_def
      Response_member_def dec_Time_def fold_names zero_AuditResponse_def
      dec_Request_sample [OF assms(2)] dec_Reply_ns
      del: foldName.simps)

lemma unmarshal_audit_record_15ms:
  assumes "parse_Time um ''2024-01-01T00:00:00Z'' = Some ts" "parse_IP um ''10.0.0.1'' = Some ip"
  shows "unmarshal_AuditResponse um (audit_record (JString ''15ms'')) =
    Inl (UnmarshalTypeError ''string'' ''time.Duration'')"
  using assms(1)
  by (simp add: unmarshal_AuditResponse_def audit_record_def dec_Response_def
      Response_member_def dec_Time_def fold_names zero_AuditResponse_def
      dec_Request_sample [OF assms(2)] dec_Reply_15ms
      del: foldName.simps)

subsection \<open>Lemmas on ErrorStream\<close>

lemma ErrorStream_Close_closed: "closed s \<Longrightarrow> ErrorStream_Close s = (err s, s)"
  by (simp add: ErrorStream_Close_def)

lemma ErrorStream_Next_stopped:
  "notnil (err s) \<or> closed s \<Longrightarrow> ErrorStream_Next s = (False, s)"
  by (auto simp: ErrorStream_Next_def)

lemma ErrorStream_Next_Rec:
  "err s = None \<Longrightarrow> \<not> closed s \<Longrightarrow> decoder s = Rec r # rest \<Longrightarrow>
   ErrorStream_Next s = (True, s\<lparr>decoder := rest, event := ErrorEvent_of r\<rparr>)"
  by (simp add: ErrorStream_Next_def)

lemma ErrorStream_Next_Malformed:
  "err s = None \<Longrightarrow> \<not> closed s \<Longrightarrow> decoder s = Malformed e # rest \<Longrightarrow> e \<noteq> EOF \<Longrightarrow>
   ErrorStream_Next s = (False, s\<lparr>decoder := rest, err := Some e\<rparr>)"
  by (simp add: ErrorStream_Next_def)

lemma ErrorStream_Next_Broken:
  "err s = None \<Longrightarrow> \<not> closed s \<Longrightarrow> decoder s = Broken e # rest \<Longrightarrow> e \<noteq> EOF \<Longrightarrow>
   ErrorStream_Next s = (False, s\<lparr>err := Some e\<rparr>)"
  by (simp add: ErrorStream_Next_def)

lemma ErrorStream_Next_EOF:
  "err s = None \<Longrightarrow> \<not> closed s \<Longrightarrow> decoder s = [] \<Longrightarrow>
   ErrorStream_Next s =
     (False, (snd (ErrorStream_Close s))\<lparr>err := fst (ErrorStream_Close s)\<rparr>)"
proof -
  assume a: "err s = None" "\<not> closed s" "decoder s = []"
  have "s\<lparr>decoder := decoder s\<rparr> = s" by simp
  then have same: "s\<lparr>decoder := []\<rparr> = s" using a(3) by simp
  show ?thesis using a by (simp add: ErrorStream_Next_def same split: prod.splits)
qed

lemma ErrorStream_Close_open:
  "\<not> closed s \<Longrightarrow> err s = None \<Longrightarrow> close_succeeds (closer s) \<Longrightarrow>
   fst (ErrorStream_Close s) = None \<and> err (snd (ErrorStream_Close s)) = None
   \<and> closed (snd (ErrorStream_Close s)) \<and> event (snd (ErrorStream_Close s)) = event s"
  by (cases "closer s") (simp_all add: ErrorStream_Close_def closer_Close_def)

lemma ErrorStream_Nexts_stopped:
  "notnil (err s) \<or> closed s \<Longrightarrow>
   ErrorStream_Nexts n s = (replicate n (False, event s), s)"
  by (induction n) (simp_all add: ErrorStream_Next_stopped ErrorStream_Event_def)

lemma ErrorStream_Nexts_add:
  "ErrorStream_Nexts (m + n) s =
    (let (o1, s1) = ErrorStream_Nexts m s; (o2, s2) = ErrorStream_Nexts n s1
     in (o1 @ o2, s2))"
  by (induction m arbitrary: s) (simp_all add: Let_def split: prod.splits)

lemma ErrorStream_Nexts_records:
  "err s = None \<Longrightarrow> \<not> closed s \<Longrightarrow> decoder s = map Rec rs @ rest \<Longrightarrow>
   ErrorStream_Nexts (length rs) s =
     (map (\<lambda>r. (True, ErrorEvent_of r)) rs,
      s\<lparr>decoder := rest, event := last (event s # map ErrorEvent_of rs)\<rparr>)"
proof (induction rs arbitrary: s)
  case Nil
  then show ?case by simp
next
  case (Cons r rs)
  let ?s1 = "s\<lparr>decoder := map Rec rs @ rest, event := ErrorEvent_of r\<rparr>"
  have step: "ErrorStream_Next s = (True, ?s1)"
    using Cons.prems by (simp add: ErrorStream_Next_Rec)
  have "ErrorStream_Nexts (length rs) ?s1 =
     (map (\<lambda>r. (True, ErrorEvent_of r)) rs,
      ?s1\<lparr>decoder := rest, event := last (event ?s1 # map ErrorEvent_of rs)\<rparr>)"
    using Cons.prems by (intro Cons.IH) simp_all
  then show ?case
    using step by (simp add: ErrorStream_Event_def)
qed

lemma ErrorStream_Close_event: "event (snd (ErrorStream_Close s)) = event s"
  by (cases "closer s") (simp_all add: ErrorStream_Close_def closer_Close_def Let_def)

lemma ErrorStream_Close_event': "ErrorStream_Close s = (e, s') \<Longrightarrow> event s' = event s"
  using ErrorStream_Close_event [of s] by simp

lemma ErrorStream_loop_Rec:
  "decoder s = Rec r # rest \<Longrightarrow> Encode enc cw r = (None, cw') \<Longrightarrow>
   ErrorStream_WriteTo_loop enc s cw = ErrorStream_WriteTo_loop enc (s\<lparr>decoder := rest\<rparr>) cw'"
  by (subst ErrorStream_WriteTo_loop.simps) simp

lemma ErrorStream_loop_Rec_fail:
  "decoder s = Rec r # rest \<Longrightarrow> Encode enc cw r = (Some e, cw') \<Longrightarrow>
   ErrorStream_WriteTo_loop enc s cw =
     ((N cw', Some e), s\<lparr>decoder := rest, err := Some e\<rparr>, cw')"
  by (subst ErrorStream_WriteTo_loop.simps) simp

lemma ErrorStream_loop_Malformed:
  "decoder s = Malformed e # rest \<Longrightarrow> e \<noteq> EOF \<Longrightarrow>
   ErrorStream_WriteTo_loop enc s cw =
     ((N cw, Some e), s\<lparr>decoder := rest, err := Some e\<rparr>, cw)"
  by (subst ErrorStream_WriteTo_loop.simps) simp

lemma ErrorStream_loop_Broken:
  "decoder s = Broken e # rest \<Longrightarrow> e \<noteq> EOF \<Longrightarrow>
   ErrorStream_WriteTo_loop enc s cw = ((N cw, Some e), s\<lparr>err := Some e\<rparr>, cw)"
proof -
  assume a: "decoder s = Broken e # rest" "e \<noteq> EOF"
  have "s\<lparr>decoder := decoder s\<rparr> = s" by simp
  then have same: "s\<lparr>decoder := Broken e # rest\<rparr> = s" using a(1) by simp
  show ?thesis using a by (subst ErrorStream_WriteTo_loop.simps) (simp add: same)
qed

lemma ErrorStream_loop_EOF:
  "decoder s = [] \<Longrightarrow>
   ErrorStream_WriteTo_loop enc s cw =
     ((N cw, fst (ErrorStream_Close s)),
      (snd (ErrorStream_Close s))\<lparr>err := fst (ErrorStream_Close s)\<rparr>, cw)"
proof -
  assume a: "decoder s = []"
  have "s\<lparr>decoder := decoder s\<rparr> = s" by simp
  then have same: "s\<lparr>decoder := []\<rparr> = s" using a by simp
  show ?thesis using a
    by (subst ErrorStream_WriteTo_loop.simps) (simp add: same split: prod.splits)
qed

lemma ErrorStream_loop_Malformed_EOF:
  "decoder s = Malformed EOF # rest \<Longrightarrow>
   ErrorStream_WriteTo_loop enc s cw =
     ((N cw, fst (ErrorStream_Close (s\<lparr>decoder := rest\<rparr>))),
      (snd (ErrorStream_Close (s\<lparr>decoder := rest\<rparr>)))
        \<lparr>err := fst (ErrorStream_Close (s\<lparr>decoder := rest\<rparr>))\<rparr>, cw)"
  by (subst ErrorStream_WriteTo_loop.simps) (simp add: split: prod.splits)

lemma ErrorStream_loop_Broken_EOF:
  "decoder s = Broken EOF # rest \<Longrightarrow>
   ErrorStream_WriteTo_loop enc s cw =
     ((N cw, fst (ErrorStream_Close s)),
      (snd (ErrorStream_Close s))\<lparr>err := fst (ErrorStream_Close s)\<rparr>, cw)"
proof -
  assume a: "decoder s = Broken EOF # rest"
  have "s\<lparr>decoder := decoder s\<rparr> = s" by simp
  then have same: "s\<lparr>decoder := Broken EOF # rest\<rparr> = s" using a by simp
  show ?thesis using a
    by (subst ErrorStream_WriteTo_loop.simps) (simp add: same split: prod.splits)
qed

lemma ErrorStream_loop_event:
  "decoder s = d \<Longrightarrow> event (fst (snd (ErrorStream_WriteTo_loop enc s cw))) = event s"
proof (induction d arbitrary: s cw)
  case Nil
  then show ?case by (simp add: ErrorStream_loop_EOF ErrorStream_Close_event)
next
  case (Cons it rest)
  show ?case
  proof (cases it)
    case (Rec r)
    show ?thesis
    proof (cases "Encode enc cw r")
      case (Pair oe cw')
      show ?thesis
      proof (cases oe)
        case None
        have "ErrorStream_WriteTo_loop enc s cw =
              ErrorStream_WriteTo_loop enc (s\<lparr>decoder := rest\<rparr>) cw'"
          using Cons.prems Rec Pair None by (intro ErrorStream_loop_Rec) simp_all
        moreover have "event (fst (snd (ErrorStream_WriteTo_loop enc (s\<lparr>decoder := rest\<rparr>) cw')))
              = event (s\<lparr>decoder := rest\<rparr>)"
          by (intro Cons.IH) simp
        ultimately show ?thesis by simp
      next
        case (Some e)
        then show ?thesis
          using Cons.prems Rec Pair by (simp add: ErrorStream_loop_Rec_fail)
      qed
    qed
  next
    case (Malformed e)
    then show ?thesis
      using Cons.prems
      by (cases "e = EOF")
         (simp_all add: ErrorStream_loop_Malformed ErrorStream_loop_Malformed_EOF
            ErrorStream_Close_event)
  next
    case (Broken e)
    then show ?thesis
      using Cons.prems
      by (cases "e = EOF")
         (simp_all add: ErrorStream_loop_Broken ErrorStream_loop_Broken_EOF
            ErrorStream_Close_event)
  qed
qed

lemma ErrorStream_WriteTo_event:
  "event (fst (snd (ErrorStream_WriteTo enc s w))) = event s"
proof (cases "ErrorStream_WriteTo_loop enc s \<lparr>W = w, N = 0\<rparr>")
  case (fields res s' cw)
  have "event s' = event s"
    using ErrorStream_loop_event [OF refl, of enc s "\<lparr>W = w, N = 0\<rparr>"] fields by simp
  then show ?thesis by (simp add: ErrorStream_WriteTo_def fields)
qed

lemma ErrorStream_loop_records:
  "room (W cw) = None \<Longrightarrow> decoder s = map Rec rs @ rest \<Longrightarrow>
   ErrorStream_WriteTo_loop enc s cw =
     ErrorStream_WriteTo_loop enc (s\<lparr>decoder := rest\<rparr>)
       (cw\<lparr>W := (W cw)\<lparr>sunk := sunk (W cw) @ concat (map enc rs)\<rparr>,
           N := N cw + word_of_nat (sum_list (map (\<lambda>r. length (enc r)) rs))\<rparr>)"
proof (induction rs arbitrary: s cw)
  case Nil
  have "s\<lparr>decoder := decoder s\<rparr> = s" by simp
  then have "s\<lparr>decoder := rest\<rparr> = s" using Nil by simp
  then show ?case by simp
next
  case (Cons r rs)
  let ?cw1 = "cw\<lparr>W := (W cw)\<lparr>sunk := sunk (W cw) @ enc r\<rparr>,
                  N := N cw + word_of_nat (length (enc r))\<rparr>"
  let ?s1 = "s\<lparr>decoder := map Rec rs @ rest\<rparr>"
  have "ErrorStream_WriteTo_loop enc s cw = ErrorStream_WriteTo_loop enc ?s1 ?cw1"
    using Cons.prems by (intro ErrorStream_loop_Rec) (simp_all add: Encode_unbounded)
  also have "\<dots> = ErrorStream_WriteTo_loop enc (?s1\<lparr>decoder := rest\<rparr>)
       (?cw1\<lparr>W := (W ?cw1)\<lparr>sunk := sunk (W ?cw1) @ concat (map enc rs)\<rparr>,
           N := N ?cw1 + word_of_nat (sum_list (map (\<lambda>r. length (enc r)) rs))\<rparr>)"
    using Cons.prems by (intro Cons.IH) simp_all
  finally show ?case by (simp add: add.assoc)
qed

lemma ErrorStream_Next_event_update:
  "\<not> fst (ErrorStream_Next s) \<Longrightarrow>
   ErrorStream_Next (s\<lparr>event := x\<rparr>) = (False, (snd (ErrorStream_Next s))\<lparr>event := x\<rparr>)"
  by (auto simp: ErrorStream_Next_def Let_def ErrorStream_Close_def closer_Close_def
      split: prod.splits sum.splits if_splits option.splits)

lemma ErrorStream_drain_stop:
  "\<not> fst (ErrorStream_Next s) \<Longrightarrow> ErrorStream_drain s = snd (ErrorStream_Next s)"
  by (cases "ErrorStream_Next s") (subst ErrorStream_drain.simps, simp)

lemma ErrorStream_drain_step:
  "fst (ErrorStream_Next s) \<Longrightarrow> ErrorStream_drain s = ErrorStream_drain (snd (ErrorStream_Next s))"
  by (cases "ErrorStream_Next s") (subst ErrorStream_drain.simps, simp)

lemma ErrorStream_loop_stop:
  "err s = None \<Longrightarrow> \<not> closed s \<Longrightarrow> \<not> fst (ErrorStream_Next s) \<Longrightarrow>
   fst (snd (ErrorStream_WriteTo_loop enc s cw)) = snd (ErrorStream_Next s)"
  by (subst ErrorStream_WriteTo_loop.simps)
     (auto simp: ErrorStream_Next_def Let_def split: prod.splits sum.splits if_splits)

lemma ErrorStream_loop_drain:
  "err s = None \<Longrightarrow> \<not> closed s \<Longrightarrow> room (W cw) = None \<Longrightarrow> decoder s = d \<Longrightarrow>
   fst (snd (ErrorStream_WriteTo_loop enc s cw)) =
     (ErrorStream_drain (s\<lparr>event := x\<rparr>))\<lparr>event := event s\<rparr>"
proof (induction d arbitrary: s cw x)
  case Nil
  have stop: "\<not> fst (ErrorStream_Next s)"
    using Nil by (simp add: ErrorStream_Next_def Let_def split: prod.splits)
  have "event (snd (ErrorStream_Next s)) = event s"
    using Nil by (simp add: ErrorStream_Next_EOF ErrorStream_Close_event)
  then show ?case
    using Nil stop
    by (simp add: ErrorStream_loop_stop ErrorStream_drain_stop ErrorStream_Next_event_update)
next
  case (Cons it rest)
  show ?case
  proof (cases it)
    case (Rec r)
    let ?cw1 = "cw\<lparr>W := (W cw)\<lparr>sunk := sunk (W cw) @ enc r\<rparr>,
                    N := N cw + word_of_nat (length (enc r))\<rparr>"
    let ?s1 = "s\<lparr>decoder := rest\<rparr>"
    have "ErrorStream_WriteTo_loop enc s cw = ErrorStream_WriteTo_loop enc ?s1 ?cw1"
      using Cons.prems Rec by (intro ErrorStream_loop_Rec) (simp_all add: Encode_unbounded)
    moreover have "fst (snd (ErrorStream_WriteTo_loop enc ?s1 ?cw1)) =
       (ErrorStream_drain (?s1\<lparr>event := ErrorEvent_of r\<rparr>))\<lparr>event := event ?s1\<rparr>"
      using Cons.prems by (intro Cons.IH) simp_all
    moreover have "ErrorStream_Next (s\<lparr>event := x\<rparr>) = (True, ?s1\<lparr>event := ErrorEvent_of r\<rparr>)"
      using Cons.prems Rec by (simp add: ErrorStream_Next_def)
    then have "ErrorStream_drain (s\<lparr>event := x\<rparr>) =
               ErrorStream_drain (?s1\<lparr>event := ErrorEvent_of r\<rparr>)"
      by (simp add: ErrorStream_drain_step)
    ultimately show ?thesis by simp
  next
    case (Malformed e)
    have stop: "\<not> fst (ErrorStream_Next s)"
      using Cons.prems Malformed by (simp add: ErrorStream_Next_def Let_def split: prod.splits)
    have "event (snd (ErrorStream_Next s)) = event s"
      using Cons.prems Malformed
      by (auto simp: ErrorStream_Next_def Let_def split: prod.splits
          dest: ErrorStream_Close_event')
    then show ?thesis
      using Cons.prems stop
      by (simp add: ErrorStream_loop_stop ErrorStream_drain_stop ErrorStream_Next_event_update)
  next
    case (Broken e)
    have stop: "\<not> fst (ErrorStream_Next s)"
      using Cons.prems Broken by (simp add: ErrorStream_Next_def Let_def split: prod.splits)
    have "event (snd (ErrorStream_Next s)) = event s"
      using Cons.prems Broken
      by (auto simp: ErrorStream_Next_def Let_def split: prod.splits
          dest: ErrorStream_Close_event')
    then show ?thesis
      using Cons.prems stop
      by (simp add: ErrorStream_loop_stop ErrorStream_drain_stop ErrorStream_Next_event_update)
  qed
qed

lemma ErrorStream_WriteTo_drain:
  assumes "err s = None" "\<not> closed s" "room w = None"
  shows "fst (snd (ErrorStream_WriteTo enc s w)) = (ErrorStream_drain s)\<lparr>event := event s\<rparr>"
proof (cases "ErrorStream_WriteTo_loop enc s \<lparr>W = w, N = 0\<rparr>")
  case (fields res s' cw)
  have "s\<lparr>event := event s\<rparr> = s" by simp
  then have "s' = (ErrorStream_drain s)\<lparr>event := event s\<rparr>"
    using ErrorStream_loop_drain [OF assms(1,2) _ refl, of "\<lparr>W = w, N = 0\<rparr>" enc "event s"]
      assms(3) fields by simp
  then show ?thesis by (simp add: ErrorStream_WriteTo_def fields)
qed

lemma ErrorStream_Next_at_end:
  assumes "err s = None" "\<not> closed s" "decoder s = []" "close_succeeds (closer s)"
  shows "fst (ErrorStream_Next s) = False"
    and "err (snd (ErrorStream_Next s)) = None"
    and "closed (snd (ErrorStream_Next s))"
    and "event (snd (ErrorStream_Next s)) = event s"
  using assms ErrorStream_Close_open [of s] by (simp_all add: ErrorStream_Next_EOF)

lemma ErrorStream_Nexts_to_end:
  assumes "err s = None" "\<not> closed s" "decoder s = map Rec rs" "close_succeeds (closer s)"
  shows "fst (ErrorStream_Nexts (length rs + Suc m) s) =
           map (\<lambda>r. (True, ErrorEvent_of r)) rs
           @ replicate (Suc m) (False, last (event s # map ErrorEvent_of rs))"
    and "err (snd (ErrorStream_Nexts (length rs + Suc m) s)) = None"
    and "closed (snd (ErrorStream_Nexts (length rs + Suc m) s))"
proof -
  let ?ev = "last (event s # map ErrorEvent_of rs)"
  let ?s1 = "s\<lparr>decoder := [], event := ?ev\<rparr>"
  obtain more s2 where nxt0: "ErrorStream_Next ?s1 = (more, s2)"
    by (cases "ErrorStream_Next ?s1")
  have recs: "ErrorStream_Nexts (length rs) s = (map (\<lambda>r. (True, ErrorEvent_of r)) rs, ?s1)"
    using assms ErrorStream_Nexts_records [of s rs "[]"] by simp
  have e: "more = False" "err s2 = None" "closed s2" "event s2 = ?ev"
    using assms ErrorStream_Next_at_end [of ?s1] nxt0 by simp_all
  have rest: "ErrorStream_Nexts m s2 = (replicate m (False, ?ev), s2)"
    using e ErrorStream_Nexts_stopped [of s2 m] by simp
  have nxt: "ErrorStream_Next ?s1 = (False, s2)"
    using e(1) nxt0 by simp
  have all: "ErrorStream_Nexts (length rs + Suc m) s =
     (map (\<lambda>r. (True, ErrorEvent_of r)) rs @ replicate (Suc m) (False, ?ev), s2)"
    by (simp only: ErrorStream_Nexts_add recs Let_def prod.case ErrorStream_Nexts.simps
          nxt rest ErrorStream_Event_def e(4) replicate_Suc)
  show "fst (ErrorStream_Nexts (length rs + Suc m) s) =
           map (\<lambda>r. (True, ErrorEvent_of r)) rs @ replicate (Suc m) (False, ?ev)"
    by (simp only: all fst_conv)
  show "err (snd (ErrorStream_Nexts (length rs + Suc m) s)) = None"
    by (simp only: all snd_conv e(2))
  show "closed (snd (ErrorStream_Nexts (length rs + Suc m) s))"
    by (simp only: all snd_conv e(3))
qed

lemma ErrorStream_Next_at_bad:
  assumes "err s = None" "\<not> closed s" "decoder s = bad # rest"
    "bad = Malformed e \<or> bad = Broken e" "e \<noteq> EOF"
  shows "fst (ErrorStream_Next s) = False"
    and "err (snd (ErrorStream_Next s)) = Some e"
    and "\<not> closed (snd (ErrorStream_Next s))"
    and "event (snd (ErrorStream_Next s)) = event s"
  using assms by (auto simp: ErrorStream_Next_Malformed ErrorStream_Next_Broken)

lemma ErrorStream_Nexts_to_bad:
  assumes "err s = None" "\<not> closed s" "decoder s = map Rec rs @ bad # rest"
    "bad = Malformed e \<or> bad = Broken e" "e \<noteq> EOF"
  shows "fst (ErrorStream_Nexts (length rs + Suc m) s) =
           map (\<lambda>r. (True, ErrorEvent_of r)) rs
           @ replicate (Suc m) (False, last (event s # map ErrorEvent_of rs))"
    and "err (snd (ErrorStream_Nexts (length rs + Suc m) s)) = Some e"
    and "\<not> closed (snd (ErrorStream_Nexts (length rs + Suc m) s))"
proof -
  let ?ev = "last (event s # map ErrorEvent_of rs)"
  let ?s1 = "s\<lparr>decoder := bad # rest, event := ?ev\<rparr>"
  obtain more s2 where nxt0: "ErrorStream_Next ?s1 = (more, s2)"
    by (cases "ErrorStream_Next ?s1")
  have recs: "ErrorStream_Nexts (length rs) s = (map (\<lambda>r. (True, ErrorEvent_of r)) rs, ?s1)"
    using assms ErrorStream_Nexts_records [of s rs "bad # rest"] by simp
  have e: "more = False" "err s2 = Some e" "\<not> closed s2" "event s2 = ?ev"
    using assms ErrorStream_Next_at_bad [of ?s1 bad rest e] nxt0 by simp_all
  have rest: "ErrorStream_Nexts m s2 = (replicate m (False, ?ev), s2)"
    using e ErrorStream_Nexts_stopped [of s2 m] by simp
  have nxt: "ErrorStream_Next ?s1 = (False, s2)"
    using e(1) nxt0 by simp
  have all: "ErrorStream_Nexts (length rs + Suc m) s =
     (map (\<lambda>r. (True, ErrorEvent_of r)) rs @ replicate (Suc m) (False, ?ev), s2)"
    by (simp only: ErrorStream_Nexts_add recs Let_def prod.case ErrorStream_Nexts.simps
          nxt rest ErrorStream_Event_def e(4) replicate_Suc)
  show "fst (ErrorStream_Nexts (length rs + Suc m) s) =
           map (\<lambda>r. (True, ErrorEvent_of r)) rs @ replicate (Suc m) (False, ?ev)"
    by (simp only: all fst_conv)
  show "err (snd (ErrorStream_Nexts (length rs + Suc m) s)) = Some e"
    by (simp only: all snd_conv e(2))
  have "snd (ErrorStream_Nexts (length rs + Suc m) s) = s2"
    by (simp only: all snd_conv)
  then show "\<not> closed (snd (ErrorStream_Nexts (length rs + Suc m) s))"
    using e(3) by (simp only:) simp
qed

lemma ErrorStream_WriteTo_parts:
  "fst (ErrorStream_WriteTo enc s w) = fst (ErrorStream_WriteTo_loop enc s \<lparr>W = w, N = 0\<rparr>)"
  "fst (snd (ErrorStream_WriteTo enc s w)) =
     fst (snd (ErrorStream_WriteTo_loop enc s \<lparr>W = w, N = 0\<rparr>))"
  "snd (snd (ErrorStream_WriteTo enc s w)) =
     W (snd (snd (ErrorStream_WriteTo_loop enc s \<lparr>W = w, N = 0\<rparr>)))"
  by (simp_all add: ErrorStream_WriteTo_def split_beta)

lemma ErrorStream_WriteTo_records:
  assumes "room w = None" "decoder s = map Rec rs" "err s = None" "close_succeeds (closer s)"
  shows "fst (ErrorStream_WriteTo enc s w) =
           (word_of_nat (sum_list (map (\<lambda>r. length (enc r)) rs)), None)"
    and "sunk (snd (snd (ErrorStream_WriteTo enc s w))) = sunk w @ concat (map enc rs)"
proof -
  let ?cw = "\<lparr>W = w, N = 0\<rparr>"
  let ?cw1 = "?cw\<lparr>W := (W ?cw)\<lparr>sunk := sunk (W ?cw) @ concat (map enc rs)\<rparr>,
           N := N ?cw + word_of_nat (sum_list (map (\<lambda>r. length (enc r)) rs))\<rparr>"
  let ?s1 = "s\<lparr>decoder := []\<rparr>"
  have "ErrorStream_WriteTo_loop enc s ?cw = ErrorStream_WriteTo_loop enc ?s1 ?cw1"
    using assms ErrorStream_loop_records [of ?cw s rs "[]" enc] by simp
  also have "\<dots> = ((N ?cw1, fst (ErrorStream_Close ?s1)),
      (snd (ErrorStream_Close ?s1))\<lparr>err := fst (ErrorStream_Close ?s1)\<rparr>, ?cw1)"
    by (rule ErrorStream_loop_EOF) simp
  finally have run: "ErrorStream_WriteTo_loop enc s ?cw =
     ((N ?cw1, fst (ErrorStream_Close ?s1)),
      (snd (ErrorStream_Close ?s1))\<lparr>err := fst (ErrorStream_Close ?s1)\<rparr>, ?cw1)" .
  have nil: "fst (ErrorStream_Close ?s1) = None"
  proof (cases "closed s")
    case True
    then show ?thesis using assms by (simp add: ErrorStream_Close_closed)
  next
    case False
    then show ?thesis using assms ErrorStream_Close_open [of ?s1] by simp
  qed
  show "fst (ErrorStream_WriteTo enc s w) =
           (word_of_nat (sum_list (map (\<lambda>r. length (enc r)) rs)), None)"
    by (simp add: ErrorStream_WriteTo_def run nil)
  show "sunk (snd (snd (ErrorStream_WriteTo enc s w))) = sunk w @ concat (map enc rs)"
    by (simp add: ErrorStream_WriteTo_def run)
qed

lemma ErrorStream_WriteTo_bad:
  assumes "room w = None" "decoder s = map Rec rs @ bad # rest"
    "bad = Malformed e \<or> bad = Broken e" "e \<noteq> EOF"
  shows "fst (ErrorStream_WriteTo enc s w) =
           (word_of_nat (sum_list (map (\<lambda>r. length (enc r)) rs)), Some e)"
    and "sunk (snd (snd (ErrorStream_WriteTo enc s w))) = sunk w @ concat (map enc rs)"
proof -
  let ?cw = "\<lparr>W = w, N = 0\<rparr>"
  let ?cw1 = "?cw\<lparr>W := (W ?cw)\<lparr>sunk := sunk (W ?cw) @ concat (map enc rs)\<rparr>,
           N := N ?cw + word_of_nat (sum_list (map (\<lambda>r. length (enc r)) rs))\<rparr>"
  let ?s1 = "s\<lparr>decoder := bad # rest\<rparr>"
  have "ErrorStream_WriteTo_loop enc s ?cw = ErrorStream_WriteTo_loop enc ?s1 ?cw1"
    using assms ErrorStream_loop_records [of ?cw s rs "bad # rest" enc] by simp
  moreover have "fst (ErrorStream_WriteTo_loop enc ?s1 ?cw1) = (N ?cw1, Some e)
      \<and> snd (snd (ErrorStream_WriteTo_loop enc ?s1 ?cw1)) = ?cw1"
  proof (cases "bad = Malformed e")
    case True
    have "ErrorStream_WriteTo_loop enc ?s1 ?cw1 =
        ((N ?cw1, Some e), ?s1\<lparr>decoder := rest, err := Some e\<rparr>, ?cw1)"
      using True assms(4) by (intro ErrorStream_loop_Malformed) simp_all
    then show ?thesis by simp
  next
    case False
    then have b: "bad = Broken e" using assms(3) by simp
    have "ErrorStream_WriteTo_loop enc ?s1 ?cw1 = ((N ?cw1, Some e), ?s1\<lparr>err := Some e\<rparr>, ?cw1)"
      using b assms(4) by (intro ErrorStream_loop_Broken [where rest = rest]) simp_all
    then show ?thesis by simp
  qed
  ultimately show "fst (ErrorStream_WriteTo enc s w) =
           (word_of_nat (sum_list (map (\<lambda>r. length (enc r)) rs)), Some e)"
    and "sunk (snd (snd (ErrorStream_WriteTo enc s w))) = sunk w @ concat (map enc rs)"
    by (simp_all add: ErrorStream_WriteTo_parts)
qed







lemma ErrorStream_drain_stopped:
  "notnil (err s) \<or> closed s \<Longrightarrow> ErrorStream_drain s = s"
  by (simp add: ErrorStream_drain_stop ErrorStream_Next_stopped)

lemma ErrorStream_WriteTo_at_end:
  "decoder s = [] \<Longrightarrow>
   fst (ErrorStream_WriteTo enc s w) = (0, fst (ErrorStream_Close s))
   \<and> fst (snd (ErrorStream_WriteTo enc s w)) =
       (snd (ErrorStream_Close s))\<lparr>err := fst (ErrorStream_Close s)\<rparr>"
  by (simp add: ErrorStream_WriteTo_parts ErrorStream_loop_EOF)

subsection \<open>Lemmas on AuditStream\<close>

lemma AuditStream_Close_closed: "closed s \<Longrightarrow> AuditStream_Close s = (err s, s)"
  by (simp add: AuditStream_Close_def)

lemma AuditStream_Next_stopped:
  "notnil (err s) \<or> closed s \<Longrightarrow> AuditStream_Next s = (False, s)"
  by (auto simp: AuditStream_Next_def)

lemma AuditStream_Next_Rec:
  "err s = None \<Longrightarrow> \<not> closed s \<Longrightarrow> decoder s = Rec r # rest \<Longrightarrow>
   AuditStream_Next s = (True, s\<lparr>decoder := rest, event := AuditEvent_of r\<rparr>)"
  by (simp add: AuditStream_Next_def)

lemma AuditStream_Next_Malformed:
  "err s = None \<Longrightarrow> \<not> closed s \<Longrightarrow> decoder s = Malformed e # rest \<Longrightarrow> e \<noteq> EOF \<Longrightarrow>
   AuditStream_Next s = (False, s\<lparr>decoder := rest, err := Some e\<rparr>)"
  by (simp add: AuditStream_Next_def)

lemma AuditStream_Next_Broken:
  "err s = None \<Longrightarrow> \<not> closed s \<Longrightarrow> decoder s = Broken e # rest \<Longrightarrow> e \<noteq> EOF \<Longrightarrow>
   AuditStream_Next s = (False, s\<lparr>err := Some e\<rparr>)"
  by (simp add: AuditStream_Next_def)

lemma AuditStream_Next_EOF:
  "err s = None \<Longrightarrow> \<not> closed s \<Longrightarrow> decoder s = [] \<Longrightarrow>
   AuditStream_Next s =
     (False, (snd (AuditStream_Close s))\<lparr>err := fst (AuditStream_Close s)\<rparr>)"
proof -
  assume a: "err s = None" "\<not> closed s" "decoder s = []"
  have "s\<lparr>decoder := decoder s\<rparr> = s" by simp
  then have same: "s\<lparr>decoder := []\<rparr> = s" using a(3) by simp
  show ?thesis using a by (simp add: AuditStream_Next_def same split: prod.splits)
qed

lemma AuditStream_Close_open:
  "\<not> closed s \<Longrightarrow> err s = None \<Longrightarrow> close_succeeds (closer s) \<Longrightarrow>
   fst (AuditStream_Close s) = None \<and> err (snd (AuditStream_Close s)) = None
   \<and> closed (snd (AuditStream_Close s)) \<and> event (snd (AuditStream_Close s)) = event s"
  by (cases "closer s") (simp_all add: AuditStream_Close_def closer_Close_def)

lemma AuditStream_Nexts_stopped:
  "notnil (err s) \<or> closed s \<Longrightarrow>
   AuditStream_Nexts n s = (replicate n (False, event s), s)"
  by (induction n) (simp_all add: AuditStream_Next_stopped AuditStream_Event_def)

lemma AuditStream_Nexts_add:
  "AuditStream_Nexts (m + n) s =
    (let (o1, s1) = AuditStream_Nexts m s; (o2, s2) = AuditStream_Nexts n s1
     in (o1 @ o2, s2))"
  by (induction m arbitrary: s) (simp_all add: Let_def split: prod.splits)

lemma AuditStream_Nexts_records:
  "err s = None \<Longrightarrow> \<not> closed s \<Longrightarrow> decoder s = map Rec rs @ rest \<Longrightarrow>
   AuditStream_Nexts (length rs) s =
     (map (\<lambda>r. (True, AuditEvent_of r)) rs,
      s\<lparr>decoder := rest, event := last (event s # map AuditEvent_of rs)\<rparr>)"
proof (induction rs arbitrary: s)
  case Nil
  then show ?case by simp
next
  case (Cons r rs)
  let ?s1 = "s\<lparr>decoder := map Rec rs @ rest, event := AuditEvent_of r\<rparr>"
  have step: "AuditStream_Next s = (True, ?s1)"
    using Cons.prems by (simp add: AuditStream_Next_Rec)
  have "AuditStream_Nexts (length rs) ?s1 =
     (map (\<lambda>r. (True, AuditEvent_of r)) rs,
      ?s1\<lparr>decoder := rest, event := last (event ?s1 # map AuditEvent_of rs)\<rparr>)"
    using Cons.prems by (intro Cons.IH) simp_all
  then show ?case
    using step by (simp add: AuditStream_Event_def)
qed

lemma AuditStream_Close_event: "event (snd (AuditStream_Close s)) = event s"
  by (cases "closer s") (simp_all add: AuditStream_Close_def closer_Close_def Let_def)

lemma AuditStream_Close_event': "AuditStream_Close s = (e, s') \<Longrightarrow> event s' = event s"
  using AuditStream_Close_event [of s] by simp

lemma AuditStream_loop_Rec:
  "decoder s = Rec r # rest \<Longrightarrow> Encode enc cw r = (None, cw') \<Longrightarrow>
   AuditStream_WriteTo_loop enc s cw = AuditStream_WriteTo_loop enc (s\<lparr>decoder := rest\<rparr>) cw'"
  by (subst AuditStream_WriteTo_loop.simps) simp

lemma AuditStream_loop_Rec_fail:
  "decoder s = Rec r # rest \<Longrightarrow> Encode enc cw r = (Some e, cw') \<Longrightarrow>
   AuditStream_WriteTo_loop enc s cw =
     ((N cw', Some e), s\<lparr>decoder := rest, err := Some e\<rparr>, cw')"
  by (subst AuditStream_WriteTo_loop.simps) simp

lemma AuditStream_loop_Malformed:
  "decoder s = Malformed e # rest \<Longrightarrow> e \<noteq> EOF \<Longrightarrow>
   AuditStream_WriteTo_loop enc s cw =
     ((N cw, Some e), s\<lparr>decoder := rest, err := Some e\<rparr>, cw)"
  by (subst AuditStream_WriteTo_loop.simps) simp

lemma AuditStream_loop_Broken:
  "decoder s = Broken e # rest \<Longrightarrow> e \<noteq> EOF \<Longrightarrow>
   AuditStream_WriteTo_loop enc s cw = ((N cw, Some e), s\<lparr>err := Some e\<rparr>, cw)"
proof -
  assume a: "decoder s = Broken e # rest" "e \<noteq> EOF"
  have "s\<lparr>decoder := decoder s\<rparr> = s" by simp
  then have same: "s\<lparr>decoder := Broken e # rest\<rparr> = s" using a(1) by simp
  show ?thesis using a by (subst AuditStream_WriteTo_loop.simps) (simp add: same)
qed

lemma AuditStream_loop_EOF:
  "decoder s = [] \<Longrightarrow>
   AuditStream_WriteTo_loop enc s cw =
     ((N cw, fst (AuditStream_Close s)),
      (snd (AuditStream_Close s))\<lparr>err := fst (AuditStream_Close s)\<rparr>, cw)"
proof -
  assume a: "decoder s = []"
  have "s\<lparr>decoder := decoder s\<rparr> = s" by simp
  then have same: "s\<lparr>decoder := []\<rparr> = s" using a by simp
  show ?thesis using a
    by (subst AuditStream_WriteTo_loop.simps) (simp add: same split: prod.splits)
qed

lemma AuditStream_loop_Malformed_EOF:
  "decoder s = Malformed EOF # rest \<Longrightarrow>
   AuditStream_WriteTo_loop enc s cw =
     ((N cw, fst (AuditStream_Close (s\<lparr>decoder := rest\<rparr>))),
      (snd (AuditStream_Close (s\<lparr>decoder := rest\<rparr>)))
        \<lparr>err := fst (AuditStream_Close (s\<lparr>decoder := rest\<rparr>))\<rparr>, cw)"
  by (subst AuditStream_WriteTo_loop.simps) (simp add: split: prod.splits)

lemma AuditStream_loop_Broken_EOF:
  "decoder s = Broken EOF # rest \<Longrightarrow>
   AuditStream_WriteTo_loop enc s cw =
     ((N cw, fst (AuditStream_Close s)),
      (snd (AuditStream_Close s))\<lparr>err := fst (AuditStream_Close s)\<rparr>, cw)"
proof -
  assume a: "decoder s = Broken EOF # rest"
  have "s\<lparr>decoder := decoder s\<rparr> = s" by simp
  then have same: "s\<lparr>decoder := Broken EOF # rest\<rparr> = s" using a by simp
  show ?thesis using a
    by (subst AuditStream_WriteTo_loop.simps) (simp add: same split: prod.splits)
qed

lemma AuditStream_loop_event:
  "decoder s = d \<Longrightarrow> event (fst (snd (AuditStream_WriteTo_loop enc s cw))) = event s"
proof (induction d arbitrary: s cw)
  case Nil
  then show ?case by (simp add: AuditStream_loop_EOF AuditStream_Close_event)
next
  case (Cons it rest)
  show ?case
  proof (cases it)
    case (Rec r)
    show ?thesis
    proof (cases "Encode enc cw r")
      case (Pair oe cw')
      show ?thesis
      proof (cases oe)
        case None
        have "AuditStream_WriteTo_loop enc s cw =
              AuditStream_WriteTo_loop enc (s\<lparr>decoder := rest\<rparr>) cw'"
          using Cons.prems Rec Pair None by (intro AuditStream_loop_Rec) simp_all
        moreover have "event (fst (snd (AuditStream_WriteTo_loop enc (s\<lparr>decoder := rest\<rparr>) cw')))
              = event (s\<lparr>decoder := rest\<rparr>)"
          by (intro Cons.IH) simp
        ultimately show ?thesis by simp
      next
        case (Some e)
        then show ?thesis
          using Cons.prems Rec Pair by (simp add: AuditStream_loop_Rec_fail)
      qed
    qed
  next
    case (Malformed e)
    then show ?thesis
      using Cons.prems
      by (cases "e = EOF")
         (simp_all add: AuditStream_loop_Malformed AuditStream_loop_Malformed_EOF
            AuditStream_Close_event)
  next
    case (Broken e)
    then show ?thesis
      using Cons.prems
      by (cases "e = EOF")
         (simp_all add: AuditStream_loop_Broken AuditStream_loop_Broken_EOF
            AuditStream_Close_event)
  qed
qed

lemma AuditStream_WriteTo_event:
  "event (fst (snd (AuditStream_WriteTo enc s w))) = event s"
proof (cases "AuditStream_WriteTo_loop enc s \<lparr>W = w, N = 0\<rparr>")
  case (fields res s' cw)
  have "event s' = event s"
    using AuditStream_loop_event [OF refl, of enc s "\<lparr>W = w, N = 0\<rparr>"] fields by simp
  then show ?thesis by (simp add: AuditStream_WriteTo_def fields)
qed

lemma AuditStream_loop_records:
  "room (W cw) = None \<Longrightarrow> decoder s = map Rec rs @ rest \<Longrightarrow>
   AuditStream_WriteTo_loop enc s cw =
     AuditStream_WriteTo_loop enc (s\<lparr>decoder := rest\<rparr>)
       (cw\<lparr>W := (W cw)\<lparr>sunk := sunk (W cw) @ concat (map enc rs)\<rparr>,
           N := N cw + word_of_nat (sum_list (map (\<lambda>r. length (enc r)) rs))\<rparr>)"
proof (induction rs arbitrary: s cw)
  case Nil
  have "s\<lparr>decoder := decoder s\<rparr> = s" by simp
  then have "s\<lparr>decoder := rest\<rparr> = s" using Nil by simp
  then show ?case by simp
next
  case (Cons r rs)
  let ?cw1 = "cw\<lparr>W := (W cw)\<lparr>sunk := sunk (W cw) @ enc r\<rparr>,
                  N := N cw + word_of_nat (length (enc r))\<rparr>"
  let ?s1 = "s\<lparr>decoder := map Rec rs @ rest\<rparr>"
  have "AuditStream_WriteTo_loop enc s cw = AuditStream_WriteTo_loop enc ?s1 ?cw1"
    using Cons.prems by (intro AuditStream_loop_Rec) (simp_all add: Encode_unbounded)
  also have "\<dots> = AuditStream_WriteTo_loop enc (?s1\<lparr>decoder := rest\<rparr>)
       (?cw1\<lparr>W := (W ?cw1)\<lparr>sunk := sunk (W ?cw1) @ concat (map enc rs)\<rparr>,
           N := N ?cw1 + word_of_nat (sum_list (map (\<lambda>r. length (enc r)) rs))\<rparr>)"
    using Cons.prems by (intro Cons.IH) simp_all
  finally show ?case by (simp add: add.assoc)
qed

lemma AuditStream_Next_event_update:
  "\<not> fst (AuditStream_Next s) \<Longrightarrow>
   AuditStream_Next (s\<lparr>event := x\<rparr>) = (False, (snd (AuditStream_Next s))\<lparr>event := x\<rparr>)"
  by (auto simp: AuditStream_Next_def Let_def AuditStream_Close_def closer_Close_def
      split: prod.splits sum.splits if_splits option.splits)

lemma AuditStream_drain_stop:
  "\<not> fst (AuditStream_Next s) \<Longrightarrow> AuditStream_drain s = snd (AuditStream_Next s)"
  by (cases "AuditStream_Next s") (subst AuditStream_drain.simps, simp)

lemma AuditStream_drain_step:
  "fst (AuditStream_Next s) \<Longrightarrow> AuditStream_drain s = AuditStream_drain (snd (AuditStream_Next s))"
  by (cases "AuditStream_Next s") (subst AuditStream_drain.simps, simp)

lemma AuditStream_loop_stop:
  "err s = None \<Longrightarrow> \<not> closed s \<Longrightarrow> \<not> fst (AuditStream_Next s) \<Longrightarrow>
   fst (snd (AuditStream_WriteTo_loop enc s cw)) = snd (AuditStream_Next s)"
  by (subst AuditStream_WriteTo_loop.simps)
     (auto simp: AuditStream_Next_def Let_def split: prod.splits sum.splits if_splits)

lemma AuditStream_loop_drain:
  "err s = None \<Longrightarrow> \<not> closed s \<Longrightarrow> room (W cw) = None \<Longrightarrow> decoder s = d \<Longrightarrow>
   fst (snd (AuditStream_WriteTo_loop enc s cw)) =
     (AuditStream_drain (s\<lparr>event := x\<rparr>))\<lparr>event := event s\<rparr>"
proof (induction d arbitrary: s cw x)
  case Nil
  have stop: "\<not> fst (AuditStream_Next s)"
    using Nil by (simp add: AuditStream_Next_def Let_def split: prod.splits)
  have "event (snd (AuditStream_Next s)) = event s"
    using Nil by (simp add: AuditStream_Next_EOF AuditStream_Close_event)
  then show ?case
    using Nil stop
    by (simp add: AuditStream_loop_stop AuditStream_drain_stop AuditStream_Next_event_update)
next
  case (Cons it rest)
  show ?case
  proof (cases it)
    case (Rec r)
    let ?cw1 = "cw\<lparr>W := (W cw)\<lparr>sunk := sunk (W cw) @ enc r\<rparr>,
                    N := N cw + word_of_nat (length (enc r))\<rparr>"
    let ?s1 = "s\<lparr>decoder := rest\<rparr>"
    have "AuditStream_WriteTo_loop enc s cw = AuditStream_WriteTo_loop enc ?s1 ?cw1"
      using Cons.prems Rec by (intro AuditStream_loop_Rec) (simp_all add: Encode_unbounded)
    moreover have "fst (snd (AuditStream_WriteTo_loop enc ?s1 ?cw1)) =
       (AuditStream_drain (?s1\<lparr>event := AuditEvent_of r\<rparr>))\<lparr>event := event ?s1\<rparr>"
      using Cons.prems by (intro Cons.IH) simp_all
    moreover have "AuditStream_Next (s\<lparr>event := x\<rparr>) = (True, ?s1\<lparr>event := AuditEvent_of r\<rparr>)"
      using Cons.prems Rec by (simp add: AuditStream_Next_def)
    then have "AuditStream_drain (s\<lparr>event := x\<rparr>) =
               AuditStream_drain (?s1\<lparr>event := AuditEvent_of r\<rparr>)"
      by (simp add: AuditStream_drain_step)
    ultimately show ?thesis by simp
  next
    case (Malformed e)
    have stop: "\<not> fst (AuditStream_Next s)"
      using Cons.prems Malformed by (simp add: AuditStream_Next_def Let_def split: prod.splits)
    have "event (snd (AuditStream_Next s)) = event s"
      using Cons.prems Malformed
      by (auto simp: AuditStream_Next_def Let_def split: prod.splits
          dest: AuditStream_Close_event')
    then show ?thesis
      using Cons.prems stop
      by (simp add: AuditStream_loop_stop AuditStream_drain_stop AuditStream_Next_event_update)
  next
    case (Broken e)
    have stop: "\<not> fst (AuditStream_Next s)"
      using Cons.prems Broken by (simp add: AuditStream_Next_def Let_def split: prod.splits)
    have "event (snd (AuditStream_Next s)) = event s"
      using Cons.prems Broken
      by (auto simp: AuditStream_Next_def Let_def split: prod.splits
          dest: AuditStream_Close_event')
    then show ?thesis
      using Cons.prems stop
      by (simp add: AuditStream_loop_stop AuditStream_drain_stop AuditStream_Next_event_update)
  qed
qed

lemma AuditStream_WriteTo_drain:
  assumes "err s = None" "\<not> closed s" "room w = None"
  shows "fst (snd (AuditStream_WriteTo enc s w)) = (AuditStream_drain s)\<lparr>event := event s\<rparr>"
proof (cases "AuditStream_WriteTo_loop enc s \<lparr>W = w, N = 0\<rparr>")
  case (fields res s' cw)
  have "s\<lparr>event := event s\<rparr> = s" by simp
  then have "s' = (AuditStream_drain s)\<lparr>event := event s\<rparr>"
    using AuditStream_loop_drain [OF assms(1,2) _ refl, of "\<lparr>W = w, N = 0\<rparr>" enc "event s"]
      assms(3) fields by simp
  then show ?thesis by (simp add: AuditStream_WriteTo_def fields)
qed

lemma AuditStream_Next_at_end:
  assumes "err s = None" "\<not> closed s" "decoder s = []" "close_succeeds (closer s)"
  shows "fst (AuditStream_Next s) = False"
    and "err (snd (AuditStream_Next s)) = None"
    and "closed (snd (AuditStream_Next s))"
    and "event (snd (AuditStream_Next s)) = event s"
  using assms AuditStream_Close_open [of s] by (simp_all add: AuditStream_Next_EOF)

lemma AuditStream_Nexts_to_end:
  assumes "err s = None" "\<not> closed s" "decoder s = map Rec rs" "close_succeeds (closer s)"
  shows "fst (AuditStream_Nexts (length rs + Suc m) s) =
           map (\<lambda>r. (True, AuditEvent_of r)) rs
           @ replicate (Suc m) (False, last (event s # map AuditEvent_of rs))"
    and "err (snd (AuditStream_Nexts (length rs + Suc m) s)) = None"
    and "closed (snd (AuditStream_Nexts (length rs + Suc m) s))"
proof -
  let ?ev = "last (event s # map AuditEvent_of rs)"
  let ?s1 = "s\<lparr>decoder := [], event := ?ev\<rparr>"
  obtain more s2 where nxt0: "AuditStream_Next ?s1 = (more, s2)"
    by (cases "AuditStream_Next ?s1")
  have recs: "AuditStream_Nexts (length rs) s = (map (\<lambda>r. (True, AuditEvent_of r)) rs, ?s1)"
    using assms AuditStream_Nexts_records [of s rs "[]"] by simp
  have e: "more = False" "err s2 = None" "closed s2" "event s2 = ?ev"
    using assms AuditStream_Next_at_end [of ?s1] nxt0 by simp_all
  have rest: "AuditStream_Nexts m s2 = (replicate m (False, ?ev), s2)"
    using e AuditStream_Nexts_stopped [of s2 m] by simp
  have nxt: "AuditStream_Next ?s1 = (False, s2)"
    using e(1) nxt0 by simp
  have all: "AuditStream_Nexts (length rs + Suc m) s =
     (map (\<lambda>r. (True, AuditEvent_of r)) rs @ replicate (Suc m) (False, ?ev), s2)"
    by (simp only: AuditStream_Nexts_add recs Let_def prod.case AuditStream_Nexts.simps
          nxt rest AuditStream_Event_def e(4) replicate_Suc)
  show "fst (AuditStream_Nexts (length rs + Suc m) s) =
           map (\<lambda>r. (True, AuditEvent_of r)) rs @ replicate (Suc m) (False, ?ev)"
    by (simp only: all fst_conv)
  show "err (snd (AuditStream_Nexts (length rs + Suc m) s)) = None"
    by (simp only: all snd_conv e(2))
  show "closed (snd (AuditStream_Nexts (length rs + Suc m) s))"
    by (simp only: all snd_conv e(3))
qed

lemma AuditStream_Next_at_bad:
  assumes "err s = None" "\<not> closed s" "decoder s = bad # rest"
    "bad = Malformed e \<or> bad = Broken e" "e \<noteq> EOF"
  shows "fst (AuditStream_Next s) = False"
    and "err (snd (AuditStream_Next s)) = Some e"
    and "\<not> closed (snd (AuditStream_Next s))"
    and "event (snd (AuditStream_Next s)) = event s"
  using assms by (auto simp: AuditStream_Next_Malformed AuditStream_Next_Broken)

lemma AuditStream_Nexts_to_bad:
  assumes "err s = None" "\<not> closed s" "decoder s = map Rec rs @ bad # rest"
    "bad = Malformed e \<or> bad = Broken e" "e \<noteq> EOF"
  shows "fst (AuditStream_Nexts (length rs + Suc m) s) =
           map (\<lambda>r. (True, AuditEvent_of r)) rs
           @ replicate (Suc m) (False, last (event s # map AuditEvent_of rs))"
    and "err (snd (AuditStream_Nexts (length rs + Suc m) s)) = Some e"
    and "\<not> closed (snd (AuditStream_Nexts (length rs + Suc m) s))"
proof -
  let ?ev = "last (event s # map AuditEvent_of rs)"
  let ?s1 = "s\<lparr>decoder := bad # rest, event := ?ev\<rparr>"
  obtain more s2 where nxt0: "AuditStream_Next ?s1 = (more, s2)"
    by (cases "AuditStream_Next ?s1")
  have recs: "AuditStream_Nexts (length rs) s = (map (\<lambda>r. (True, AuditEvent_of r)) rs, ?s1)"
    using assms AuditStream_Nexts_records [of s rs "bad # rest"] by simp
  have e: "more = False" "err s2 = Some e" "\<not> closed s2" "event s2 = ?ev"
    using assms AuditStream_Next_at_bad [of ?s1 bad rest e] nxt0 by simp_all
  have rest: "AuditStream_Nexts m s2 = (replicate m (False, ?ev), s2)"
    using e AuditStream_Nexts_stopped [of s2 m] by simp
  have nxt: "AuditStream_Next ?s1 = (False, s2)"
    using e(1) nxt0 by simp
  have all: "AuditStream_Nexts (length rs + Suc m) s =
     (map (\<lambda>r. (True, AuditEvent_of r)) rs @ replicate (Suc m) (False, ?ev), s2)"
    by (simp only: AuditStream_Nexts_add recs Let_def prod.case AuditStream_Nexts.simps
          nxt rest AuditStream_Event_def e(4) replicate_Suc)
  show "fst (AuditStream_Nexts (length rs + Suc m) s) =
           map (\<lambda>r. (True, AuditEvent_of r)) rs @ replicate (Suc m) (False, ?ev)"
    by (simp only: all fst_conv)
  show "err (snd (AuditStream_Nexts (length rs + Suc m) s)) = Some e"
    by (simp only: all snd_conv e(2))
  have "snd (AuditStream_Nexts (length rs + Suc m) s) = s2"
    by (simp only: all snd_conv)
  then show "\<not> closed (snd (AuditStream_Nexts (length rs + Suc m) s))"
    using e(3) by (simp only:) simp
qed

lemma AuditStream_WriteTo_parts:
  "fst (AuditStream_WriteTo enc s w) = fst (AuditStream_WriteTo_loop enc s \<lparr>W = w, N = 0\<rparr>)"
  "fst (snd (AuditStream_WriteTo enc s w)) =
     fst (snd (AuditStream_WriteTo_loop enc s \<lparr>W = w, N = 0\<rparr>))"
  "snd (snd (AuditStream_WriteTo enc s w)) =
     W (snd (snd (AuditStream_WriteTo_loop enc s \<lparr>W = w, N = 0\<rparr>)))"
  by (simp_all add: AuditStream_WriteTo_def split_beta)

lemma AuditStream_WriteTo_records:
  assumes "room w = None" "decoder s = map Rec rs" "err s = None" "close_succeeds (closer s)"
  shows "fst (AuditStream_WriteTo enc s w) =
           (word_of_nat (sum_list (map (\<lambda>r. length (enc r)) rs)), None)"
    and "sunk (snd (snd (AuditStream_WriteTo enc s w))) = sunk w @ concat (map enc rs)"
proof -
  let ?cw = "\<lparr>W = w, N = 0\<rparr>"
  let ?cw1 = "?cw\<lparr>W := (W ?cw)\<lparr>sunk := sunk (W ?cw) @ concat (map enc rs)\<rparr>,
           N := N ?cw + word_of_nat (sum_list (map (\<lambda>r. length (enc r)) rs))\<rparr>"
  let ?s1 = "s\<lparr>decoder := []\<rparr>"
  have "AuditStream_WriteTo_loop enc s ?cw = AuditStream_WriteTo_loop enc ?s1 ?cw1"
    using assms AuditStream_loop_records [of ?cw s rs "[]" enc] by simp
  also have "\<dots> = ((N ?cw1, fst (AuditStream_Close ?s1)),
      (snd (AuditStream_Close ?s1))\<lparr>err := fst (AuditStream_Close ?s1)\<rparr>, ?cw1)"
    by (rule AuditStream_loop_EOF) simp
  finally have run: "AuditStream_WriteTo_loop enc s ?cw =
     ((N ?cw1, fst (AuditStream_Close ?s1)),
      (snd (AuditStream_Close ?s1))\<lparr>err := fst (AuditStream_Close ?s1)\<rparr>, ?cw1)" .
  have nil: "fst (AuditStream_Close ?s1) = None"
  proof (cases "closed s")
    case True
    then show ?thesis using assms by (simp add: AuditStream_Close_closed)
  next
    case False
    then show ?thesis using assms AuditStream_Close_open [of ?s1] by simp
  qed
  show "fst (AuditStream_WriteTo enc s w) =
           (word_of_nat (sum_list (map (\<lambda>r. length (enc r)) rs)), None)"
    by (simp add: AuditStream_WriteTo_def run nil)
  show "sunk (snd (snd (AuditStream_WriteTo enc s w))) = sunk w @ concat (map enc rs)"
    by (simp add: AuditStream_WriteTo_def run)
qed

lemma AuditStream_WriteTo_bad:
  assumes "room w = None" "decoder s = map Rec rs @ bad # rest"
    "bad = Malformed e \<or> bad = Broken e" "e \<noteq> EOF"
  shows "fst (AuditStream_WriteTo enc s w) =
           (word_of_nat (sum_list (map (\<lambda>r. length (enc r)) rs)), Some e)"
    and "sunk (snd (snd (AuditStream_WriteTo enc s w))) = sunk w @ concat (map enc rs)"
proof -
  let ?cw = "\<lparr>W = w, N = 0\<rparr>"
  let ?cw1 = "?cw\<lparr>W := (W ?cw)\<lparr>sunk := sunk (W ?cw) @ concat (map enc rs)\<rparr>,
           N := N ?cw + word_of_nat (sum_list (map (\<lambda>r. length (enc r)) rs))\<rparr>"
  let ?s1 = "s\<lparr>decoder := bad # rest\<rparr>"
  have "AuditStream_WriteTo_loop enc s ?cw = AuditStream_WriteTo_loop enc ?s1 ?cw1"
    using assms AuditStream_loop_records [of ?cw s rs "bad # rest" enc] by simp
  moreover have "fst (AuditStream_WriteTo_loop enc ?s1 ?cw1) = (N ?cw1, Some e)
      \<and> snd (snd (AuditStream_WriteTo_loop enc ?s1 ?cw1)) = ?cw1"
  proof (cases "bad = Malformed e")
    case True
    have "AuditStream_WriteTo_loop enc ?s1 ?cw1 =
        ((N ?cw1, Some e), ?s1\<lparr>decoder := rest, err := Some e\<rparr>, ?cw1)"
      using True assms(4) by (intro AuditStream_loop_Malformed) simp_all
    then show ?thesis by simp
  next
    case False
    then have b: "bad = Broken e" using assms(3) by simp
    have "AuditStream_WriteTo_loop enc ?s1 ?cw1 = ((N ?cw1, Some e), ?s1\<lparr>err := Some e\<rparr>, ?cw1)"
      using b assms(4) by (intro AuditStream_loop_Broken [where rest = rest]) simp_all
    then show ?thesis by simp
  qed
  ultimately show "fst (AuditStream_WriteTo enc s w) =
           (word_of_nat (sum_list (map (\<lambda>r. length (enc r)) rs)), Some e)"
    and "sunk (snd (snd (AuditStream_WriteTo enc s w))) = sunk w @ concat (map enc rs)"
    by (simp_all add: AuditStream_WriteTo_parts)
qed







lemma AuditStream_drain_stopped:
  "notnil (err s) \<or> closed s \<Longrightarrow> AuditStream_drain s = s"
  by (simp add: AuditStream_drain_stop AuditStream_Next_stopped)

lemma AuditStream_WriteTo_at_end:
  "decoder s = [] \<Longrightarrow>
   fst (AuditStream_WriteTo enc s w) = (0, fst (AuditStream_Close s))
   \<and> fst (snd (AuditStream_WriteTo enc s w)) =
       (snd (AuditStream_Close s))\<lparr>err := fst (AuditStream_Close s)\<rparr>"
  by (simp add: AuditStream_WriteTo_parts AuditStream_loop_EOF)

subsection \<open>The sample streams, evaluated\<close>

lemma errored_ErrorStream_eq:
  "errored_ErrorStream =
    \<lparr>decoder = [], closer = Some \<lparr>close_err = None, close_calls = 0\<rparr>,
     event = \<lparr>Message = []\<rparr>, err = Some (UnmarshalTypeError ''number'' ''string''),
     closed = False\<rparr>"
  by (simp add: errored_ErrorStream_def NewErrorStream_def ErrorStream_Next_def)

lemma errored_AuditStream_eq:
  "errored_AuditStream =
    \<lparr>decoder = [], closer = Some \<lparr>close_err = None, close_calls = 0\<rparr>,
     event = zero_AuditEvent, err = Some (UnmarshalTypeError ''string'' ''time.Duration''),
     closed = False\<rparr>"
  by (simp add: errored_AuditStream_def NewAuditStream_def AuditStream_Next_def)

section \<open>The claims\<close>

text \<open>
  Claim C1. For an input of N well-formed records, read by a stream that is open and
  has no stored error, \<open>Next\<close> returns true exactly N times and false at every later
  call, and the stored error is nil afterwards, provided that the closer, if there
  is one, closes without error. After the i-th call \<open>Event()\<close> is the event mapped
  from the i-th record: for \<open>ErrorStream\<close> its \<open>Message\<close> is the record's message;
  for \<open>AuditStream\<close> its \<open>Timestamp\<close> is the record's time, its \<open>APIPath\<close>,
  \<open>ClientIP\<close> and \<open>ClientIdentity\<close> are the request's path, ip and identity, and
  its \<open>StatusCode\<close> and \<open>ResponseTime\<close> are the response's code and time. After a
  call that returned false \<open>Event()\<close> is the event of the last record (the event
  the stream held at the start when there is no record).
\<close>

theorem C1_Next_yields_every_record:
  assumes "err s = None" "\<not> closed s" "decoder s = map Rec rs" "close_succeeds (closer s)"
    and "err t = None" "\<not> closed t" "decoder t = map Rec qs" "close_succeeds (closer t)"
  shows "fst (ErrorStream_Nexts (length rs + Suc m) s) =
           map (\<lambda>r. (True, \<lparr>Message = resp_Message r\<rparr>)) rs
           @ replicate (Suc m)
               (False, last (event s # map (\<lambda>r. \<lparr>Message = resp_Message r\<rparr>) rs))
    \<and> err (snd (ErrorStream_Nexts (length rs + Suc m) s)) = None
    \<and> fst (AuditStream_Nexts (length qs + Suc n) t) =
           map (\<lambda>r. (True,
                  \<lparr>Timestamp = resp_Timestamp r,
                   APIPath = req_APIPath (resp_Request r),
                   ClientIP = req_IP (resp_Request r),
                   ClientIdentity = req_Identity (resp_Request r),
                   StatusCode = rep_StatusCode (resp_Response r),
                   ResponseTime = rep_Time (resp_Response r)\<rparr>)) qs
           @ replicate (Suc n)
               (False, last (event t # map (\<lambda>r.
                  \<lparr>Timestamp = resp_Timestamp r,
                   APIPath = req_APIPath (resp_Request r),
                   ClientIP = req_IP (resp_Request r),
                   ClientIdentity = req_Identity (resp_Request r),
                   StatusCode = rep_StatusCode (resp_Response r),
                   ResponseTime = rep_Time (resp_Response r)\<rparr>) qs))
    \<and> err (snd (AuditStream_Nexts (length qs + Suc n) t)) = None"
proof -
  have ev: "ErrorEvent_of = (\<lambda>r. \<lparr>Message = resp_Message r\<rparr>)"
    by (rule ext) (simp add: ErrorEvent_of_def)
  have av: "AuditEvent_of = (\<lambda>r.
      \<lparr>Timestamp = resp_Timestamp r,
       APIPath = req_APIPath (resp_Request r),
       ClientIP = req_IP (resp_Request r),
       ClientIdentity = req_Identity (resp_Request r),
       StatusCode = rep_StatusCode (resp_Response r),
       ResponseTime = rep_Time (resp_Response r)\<rparr>)"
    by (rule ext) (simp add: AuditEvent_of_def)
  show ?thesis
    using ErrorStream_Nexts_to_end(1,2) [OF assms(1-4), of m]
      AuditStream_Nexts_to_end(1,2) [OF assms(5-8), of n]
    unfolding ev av by simp
qed

text \<open>
  Records a and b, then the end of the input; and two audit records whose six
  fields all differ from each other and from the zero event.
\<close>

theorem C1_witness:
  "fst (ErrorStream_Nexts (Suc (Suc (Suc 0)))
      (NewErrorStream \<lparr>input = [Rec \<lparr>resp_Message = ''a''\<rparr>, Rec \<lparr>resp_Message = ''b''\<rparr>],
         as_closer = Some \<lparr>close_err = None, close_calls = 0\<rparr>\<rparr>))
    = [(True, \<lparr>Message = ''a''\<rparr>), (True, \<lparr>Message = ''b''\<rparr>), (False, \<lparr>Message = ''b''\<rparr>)]
   \<and> err (snd (ErrorStream_Nexts (Suc (Suc (Suc 0)))
      (NewErrorStream \<lparr>input = [Rec \<lparr>resp_Message = ''a''\<rparr>, Rec \<lparr>resp_Message = ''b''\<rparr>],
         as_closer = Some \<lparr>close_err = None, close_calls = 0\<rparr>\<rparr>))) = None
   \<and> fst (AuditStream_Nexts (Suc (Suc (Suc 0)))
      (NewAuditStream
        \<lparr>input =
           [Rec \<lparr>resp_Timestamp = \<lparr>seconds = 63839664000, nanos = 0, zone_offset = 0\<rparr>,
                 resp_Request = \<lparr>req_IP = [10, 0, 0, 1], req_APIPath = ''/v1/key/create'',
                                 req_Identity = ''abc123''\<rparr>,
                 resp_Response = \<lparr>rep_StatusCode = 200, rep_Time = 15000000\<rparr>\<rparr>,
            Rec \<lparr>resp_Timestamp = \<lparr>seconds = 63839664001, nanos = 5, zone_offset = 3600\<rparr>,
                 resp_Request = \<lparr>req_IP = [10, 0, 0, 2], req_APIPath = ''/v1/key/delete'',
                                 req_Identity = ''def456''\<rparr>,
                 resp_Response = \<lparr>rep_StatusCode = 404, rep_Time = 7\<rparr>\<rparr>],
         as_closer = None\<rparr>))
    = [(True, \<lparr>Timestamp = \<lparr>seconds = 63839664000, nanos = 0, zone_offset = 0\<rparr>,
               APIPath = ''/v1/key/create'', ClientIP = [10, 0, 0, 1],
               ClientIdentity = ''abc123'', StatusCode = 200, ResponseTime = 15000000\<rparr>),
       (True, \<lparr>Timestamp = \<lparr>seconds = 63839664001, nanos = 5, zone_offset = 3600\<rparr>,
               APIPath = ''/v1/key/delete'', ClientIP = [10, 0, 0, 2],
               ClientIdentity = ''def456'', StatusCode = 404, ResponseTime = 7\<rparr>),
       (False, \<lparr>Timestamp = \<lparr>seconds = 63839664001, nanos = 5, zone_offset = 3600\<rparr>,
               APIPath = ''/v1/key/delete'', ClientIP = [10, 0, 0, 2],
               ClientIdentity = ''def456'', StatusCode = 404, ResponseTime = 7\<rparr>)]
   \<and> err (snd (AuditStream_Nexts (Suc (Suc (Suc 0)))
      (NewAuditStream
        \<lparr>input =
           [Rec \<lparr>resp_Timestamp = \<lparr>seconds = 63839664000, nanos = 0, zone_offset = 0\<rparr>,
                 resp_Request = \<lparr>req_IP = [10, 0, 0, 1], req_APIPath = ''/v1/key/create'',
                                 req_Identity = ''abc123''\<rparr>,
                 resp_Response = \<lparr>rep_StatusCode = 200, rep_Time = 15000000\<rparr>\<rparr>,
            Rec \<lparr>resp_Timestamp = \<lparr>seconds = 63839664001, nanos = 5, zone_offset = 3600\<rparr>,
                 resp_Request = \<lparr>req_IP = [10, 0, 0, 2], req_APIPath = ''/v1/key/delete'',
                                 req_Identity = ''def456''\<rparr>,
                 resp_Response = \<lparr>rep_StatusCode = 404, rep_Time = 7\<rparr>\<rparr>],
         as_closer = None\<rparr>))) = None"
  using C1_Next_yields_every_record
    [of "NewErrorStream \<lparr>input = [Rec \<lparr>resp_Message = ''a''\<rparr>, Rec \<lparr>resp_Message = ''b''\<rparr>],
         as_closer = Some \<lparr>close_err = None, close_calls = 0\<rparr>\<rparr>"
        "[\<lparr>resp_Message = ''a''\<rparr>, \<lparr>resp_Message = ''b''\<rparr>]"
        "NewAuditStream
        \<lparr>input =
           [Rec \<lparr>resp_Timestamp = \<lparr>seconds = 63839664000, nanos = 0, zone_offset = 0\<rparr>,
                 resp_Request = \<lparr>req_IP = [10, 0, 0, 1], req_APIPath = ''/v1/key/create'',
                                 req_Identity = ''abc123''\<rparr>,
                 resp_Response = \<lparr>rep_StatusCode = 200, rep_Time = 15000000\<rparr>\<rparr>,
            Rec \<lparr>resp_Timestamp = \<lparr>seconds = 63839664001, nanos = 5, zone_offset = 3600\<rparr>,
                 resp_Request = \<lparr>req_IP = [10, 0, 0, 2], req_APIPath = ''/v1/key/delete'',
                                 req_Identity = ''def456''\<rparr>,
                 resp_Response = \<lparr>rep_StatusCode = 404, rep_Time = 7\<rparr>\<rparr>],
         as_closer = None\<rparr>"
        "[\<lparr>resp_Timestamp = \<lparr>seconds = 63839664000, nanos = 0, zone_offset = 0\<rparr>,
                 resp_Request = \<lparr>req_IP = [10, 0, 0, 1], req_APIPath = ''/v1/key/create'',
                                 req_Identity = ''abc123''\<rparr>,
                 resp_Response = \<lparr>rep_StatusCode = 200, rep_Time = 15000000\<rparr>\<rparr>,
          \<lparr>resp_Timestamp = \<lparr>seconds = 63839664001, nanos = 5, zone_offset = 3600\<rparr>,
                 resp_Request = \<lparr>req_IP = [10, 0, 0, 2], req_APIPath = ''/v1/key/delete'',
                                 req_Identity = ''def456''\<rparr>,
                 resp_Response = \<lparr>rep_StatusCode = 404, rep_Time = 7\<rparr>\<rparr>]" 0 0]
  by (simp add: NewErrorStream_def NewAuditStream_def)

text \<open>
  Claim C2. When the record at position k is malformed (it does not unmarshal, or the
  input is not JSON there), \<open>Next\<close> returns true exactly k - 1 times and then false,
  with the decode error stored; \<open>Event()\<close> then still is the event of record k - 1
  (the event the stream held at the start when k = 1), and so at every later call.
  The decode error is not \<open>io.EOF\<close>, which is the end of the input and no error.
\<close>

theorem C2_Next_stops_at_malformed_record:
  assumes "err s = None" "\<not> closed s" "decoder s = map Rec rs @ bad # rest"
    "bad = Malformed e \<or> bad = Broken e" "e \<noteq> EOF"
    and "err t = None" "\<not> closed t" "decoder t = map Rec qs @ bad' # rest'"
    "bad' = Malformed e' \<or> bad' = Broken e'" "e' \<noteq> EOF"
  shows "fst (ErrorStream_Nexts (length rs + Suc m) s) =
           map (\<lambda>r. (True, ErrorEvent_of r)) rs
           @ replicate (Suc m) (False, last (event s # map ErrorEvent_of rs))
    \<and> err (snd (ErrorStream_Nexts (length rs + Suc m) s)) = Some e
    \<and> \<not> closed (snd (ErrorStream_Nexts (length rs + Suc m) s))
    \<and> fst (AuditStream_Nexts (length qs + Suc n) t) =
           map (\<lambda>r. (True, AuditEvent_of r)) qs
           @ replicate (Suc n) (False, last (event t # map AuditEvent_of qs))
    \<and> err (snd (AuditStream_Nexts (length qs + Suc n) t)) = Some e'
    \<and> \<not> closed (snd (AuditStream_Nexts (length qs + Suc n) t))"
  using ErrorStream_Nexts_to_bad [OF assms(1-5)] AuditStream_Nexts_to_bad [OF assms(6-10)]
  by simp

text \<open>A third record whose message is a number, and an audit input that is not JSON.\<close>

theorem C2_witness:
  "fst (ErrorStream_Nexts (Suc (Suc (Suc 0)))
      (NewErrorStream
         \<lparr>input = [Rec \<lparr>resp_Message = ''a''\<rparr>, Rec \<lparr>resp_Message = ''b''\<rparr>,
                   Malformed (UnmarshalTypeError ''number'' ''string''),
                   Rec \<lparr>resp_Message = ''d''\<rparr>],
          as_closer = None\<rparr>))
    = [(True, \<lparr>Message = ''a''\<rparr>), (True, \<lparr>Message = ''b''\<rparr>), (False, \<lparr>Message = ''b''\<rparr>)]
   \<and> err (snd (ErrorStream_Nexts (Suc (Suc (Suc 0)))
      (NewErrorStream
         \<lparr>input = [Rec \<lparr>resp_Message = ''a''\<rparr>, Rec \<lparr>resp_Message = ''b''\<rparr>,
                   Malformed (UnmarshalTypeError ''number'' ''string''),
                   Rec \<lparr>resp_Message = ''d''\<rparr>],
          as_closer = None\<rparr>))) = Some (UnmarshalTypeError ''number'' ''string'')
   \<and> fst (AuditStream_Nexts (Suc 0)
      (NewAuditStream \<lparr>input = [Broken (SyntaxError ''invalid character'')], as_closer = None\<rparr>))
    = [(False, zero_AuditEvent)]
   \<and> err (snd (AuditStream_Nexts (Suc 0)
      (NewAuditStream \<lparr>input = [Broken (SyntaxError ''invalid character'')], as_closer = None\<rparr>)))
    = Some (SyntaxError ''invalid character'')"
  using C2_Next_stops_at_malformed_record
    [of "NewErrorStream
         \<lparr>input = [Rec \<lparr>resp_Message = ''a''\<rparr>, Rec \<lparr>resp_Message = ''b''\<rparr>,
                   Malformed (UnmarshalTypeError ''number'' ''string''),
                   Rec \<lparr>resp_Message = ''d''\<rparr>],
          as_closer = None\<rparr>"
        "[\<lparr>resp_Message = ''a''\<rparr>, \<lparr>resp_Message = ''b''\<rparr>]"
        "Malformed (UnmarshalTypeError ''number'' ''string'')"
        "[Rec \<lparr>resp_Message = ''d''\<rparr>]"
        "UnmarshalTypeError ''number'' ''string''"
        "NewAuditStream \<lparr>input = [Broken (SyntaxError ''invalid character'')], as_closer = None\<rparr>"
        "[]" "Broken (SyntaxError ''invalid character'')" "[]" "SyntaxError ''invalid character''"
        0 0]
  by (simp add: NewErrorStream_def NewAuditStream_def ErrorEvent_of_def)




text \<open>
  Claim C4 does not hold of \<open>WriteTo\<close>, which, unlike \<open>Next\<close>, does not look at the
  stored error: on a stream where \<open>Next\<close> has stored a decode error (and returns
  false from then on), \<open>WriteTo\<close> reads on, reaches the end of the input and assigns
  the result of \<open>Close\<close>, nil, to the stored error. When a second malformed record
  follows the first, \<open>WriteTo\<close> replaces the first decode error by the second.
\<close>

theorem C4_WriteTo_replaces_stored_error:
  "err errored_ErrorStream = Some (UnmarshalTypeError ''number'' ''string'')
   \<and> ErrorStream_Next errored_ErrorStream = (False, errored_ErrorStream)
   \<and> fst (ErrorStream_WriteTo encode_ErrorResponse errored_ErrorStream open_sink) = (0, None)
   \<and> err (fst (snd (ErrorStream_WriteTo encode_ErrorResponse errored_ErrorStream open_sink))) = None
   \<and> err (snd (ErrorStream_Next (NewErrorStream
        \<lparr>input = [Malformed (UnmarshalTypeError ''number'' ''string''),
                  Malformed (UnmarshalTypeError ''bool'' ''string'')],
         as_closer = None\<rparr>))) = Some (UnmarshalTypeError ''number'' ''string'')
   \<and> err (fst (snd (ErrorStream_WriteTo encode_ErrorResponse
        (snd (ErrorStream_Next (NewErrorStream
          \<lparr>input = [Malformed (UnmarshalTypeError ''number'' ''string''),
                    Malformed (UnmarshalTypeError ''bool'' ''string'')],
           as_closer = None\<rparr>))) open_sink))) = Some (UnmarshalTypeError ''bool'' ''string'')
   \<and> err errored_AuditStream = Some (UnmarshalTypeError ''string'' ''time.Duration'')
   \<and> AuditStream_Next errored_AuditStream = (False, errored_AuditStream)
   \<and> fst (AuditStream_WriteTo encode_path errored_AuditStream open_sink) = (0, None)
   \<and> err (fst (snd (AuditStream_WriteTo encode_path errored_AuditStream open_sink))) = None"
proof -
  have e: "decoder errored_ErrorStream = []" "decoder errored_AuditStream = []"
    by (simp_all add: errored_ErrorStream_eq errored_AuditStream_eq)
  have "fst (ErrorStream_Close errored_ErrorStream) = None"
    "fst (AuditStream_Close errored_AuditStream) = None"
    by (simp_all add: errored_ErrorStream_eq errored_AuditStream_eq
        ErrorStream_Close_def AuditStream_Close_def closer_Close_def)
  moreover have "snd (ErrorStream_Next (NewErrorStream
        \<lparr>input = [Malformed (UnmarshalTypeError ''number'' ''string''),
                  Malformed (UnmarshalTypeError ''bool'' ''string'')],
         as_closer = None\<rparr>)) =
      \<lparr>decoder = [Malformed (UnmarshalTypeError ''bool'' ''string'')], closer = None,
       event = \<lparr>Message = []\<rparr>, err = Some (UnmarshalTypeError ''number'' ''string''),
       closed = False\<rparr>" (is "?s1 = ?v")
    by (simp add: NewErrorStream_def ErrorStream_Next_def)
  moreover have "ErrorStream_WriteTo_loop encode_ErrorResponse ?v \<lparr>W = open_sink, N = 0\<rparr> =
      ((0, Some (UnmarshalTypeError ''bool'' ''string'')),
       ?v\<lparr>decoder := [], err := Some (UnmarshalTypeError ''bool'' ''string'')\<rparr>,
       \<lparr>W = open_sink, N = 0\<rparr>)"
    using ErrorStream_loop_Malformed
      [of ?v "UnmarshalTypeError ''bool'' ''string''" "[]" encode_ErrorResponse
          "\<lparr>W = open_sink, N = 0\<rparr>"]
    by simp
  ultimately show ?thesis
    using ErrorStream_WriteTo_at_end [OF e(1), of encode_ErrorResponse open_sink]
      AuditStream_WriteTo_at_end [OF e(2), of encode_path open_sink]
      ErrorStream_Next_stopped [of errored_ErrorStream]
      AuditStream_Next_stopped [of errored_AuditStream]
    by (simp add: errored_ErrorStream_eq errored_AuditStream_eq ErrorStream_WriteTo_parts)
qed

text \<open>
  Claim C5, as the code has it. On a stream that is open and holds no error, and with
  a sink that accepts every write, \<open>WriteTo\<close> leaves the stream as calling \<open>Next\<close>
  until it returns false does: the same position of the decoder, closer, stored
  error and closed flag; only the stored event is the one from before the call.
\<close>

theorem C5_WriteTo_as_drain:
  assumes "err s = None" "\<not> closed s" "room w = None"
    and "err t = None" "\<not> closed t" "room w' = None"
  shows "fst (snd (ErrorStream_WriteTo enc s w)) = (ErrorStream_drain s)\<lparr>event := event s\<rparr>
    \<and> fst (snd (AuditStream_WriteTo enc' t w')) = (AuditStream_drain t)\<lparr>event := event t\<rparr>"
  using ErrorStream_WriteTo_drain [OF assms(1-3)] AuditStream_WriteTo_drain [OF assms(4-6)]
  by simp

text \<open>A record followed by a malformed one, and a single audit record.\<close>

theorem C5_witness:
  "fst (snd (ErrorStream_WriteTo encode_ErrorResponse
      (NewErrorStream \<lparr>input = [Rec \<lparr>resp_Message = ''a''\<rparr>,
                                Malformed (UnmarshalTypeError ''number'' ''string'')],
                       as_closer = None\<rparr>) open_sink))
    = (ErrorStream_drain
        (NewErrorStream \<lparr>input = [Rec \<lparr>resp_Message = ''a''\<rparr>,
                                Malformed (UnmarshalTypeError ''number'' ''string'')],
                         as_closer = None\<rparr>))\<lparr>event := \<lparr>Message = []\<rparr>\<rparr>
   \<and> fst (snd (AuditStream_WriteTo encode_path
      (NewAuditStream \<lparr>input = [Rec zero_AuditResponse], as_closer = None\<rparr>) open_sink))
    = (AuditStream_drain
        (NewAuditStream \<lparr>input = [Rec zero_AuditResponse], as_closer = None\<rparr>))
        \<lparr>event := zero_AuditEvent\<rparr>"
  using C5_WriteTo_as_drain
    [of "NewErrorStream \<lparr>input = [Rec \<lparr>resp_Message = ''a''\<rparr>,
                                Malformed (UnmarshalTypeError ''number'' ''string'')],
                         as_closer = None\<rparr>"
        open_sink
        "NewAuditStream \<lparr>input = [Rec zero_AuditResponse], as_closer = None\<rparr>"
        open_sink encode_ErrorResponse encode_path]
  by (simp add: NewErrorStream_def NewAuditStream_def open_sink_def)

text \<open>
  The claim as stated fails with a sink that rejects a record (\<open>WriteTo\<close> stops with
  the sink's error, the iteration ends closed and without error), and on a stream
  that holds an error (\<open>WriteTo\<close> closes it, the iteration does nothing).
\<close>

theorem C5_counterexample:
  "err (fst (snd (ErrorStream_WriteTo encode_ErrorResponse
      (NewErrorStream \<lparr>input = [Rec \<lparr>resp_Message = ''a''\<rparr>], as_closer = None\<rparr>) full_sink)))
    = Some (IOError ''short write'')
   \<and> err (ErrorStream_drain
      (NewErrorStream \<lparr>input = [Rec \<lparr>resp_Message = ''a''\<rparr>], as_closer = None\<rparr>)) = None
   \<and> closed (fst (snd (ErrorStream_WriteTo encode_ErrorResponse errored_ErrorStream open_sink)))
   \<and> \<not> closed (ErrorStream_drain errored_ErrorStream)"
proof -
  let ?s0 = "NewErrorStream \<lparr>input = [Rec \<lparr>resp_Message = ''a''\<rparr>], as_closer = None\<rparr>"
  let ?cw = "\<lparr>W = full_sink, N = 0\<rparr>"
  have enc: "Encode encode_ErrorResponse ?cw \<lparr>resp_Message = ''a''\<rparr> =
      (Some (IOError ''short write''), ?cw)"
    by (simp add: Encode_def countWriter_Write_def writer_Write_def full_sink_def
        encode_ErrorResponse_def quoted_def)
  have "ErrorStream_WriteTo_loop encode_ErrorResponse ?s0 ?cw =
      ((N ?cw, Some (IOError ''short write'')),
       ?s0\<lparr>decoder := [], err := Some (IOError ''short write'')\<rparr>, ?cw)"
    by (rule ErrorStream_loop_Rec_fail [OF _ enc]) (simp add: NewErrorStream_def)
  then have a: "err (fst (snd (ErrorStream_WriteTo encode_ErrorResponse ?s0 full_sink)))
      = Some (IOError ''short write'')"
    by (simp add: ErrorStream_WriteTo_parts)
  let ?s1 = "?s0\<lparr>decoder := [], event := ErrorEvent_of \<lparr>resp_Message = ''a''\<rparr>\<rparr>"
  have n1: "ErrorStream_Next ?s0 = (True, ?s1)"
    by (rule ErrorStream_Next_Rec) (simp_all add: NewErrorStream_def)
  have n2: "fst (ErrorStream_Next ?s1) = False" "err (snd (ErrorStream_Next ?s1)) = None"
    by (rule ErrorStream_Next_at_end; simp add: NewErrorStream_def)+
  have "ErrorStream_drain ?s0 = ErrorStream_drain ?s1"
    using ErrorStream_drain_step [of ?s0] n1 by simp
  also have "\<dots> = snd (ErrorStream_Next ?s1)"
    using n2(1) by (simp add: ErrorStream_drain_stop)
  finally have b: "err (ErrorStream_drain ?s0) = None"
    using n2(2) by simp
  have e: "decoder errored_ErrorStream = []"
    by (simp add: errored_ErrorStream_eq)
  have c: "closed (fst (snd (ErrorStream_WriteTo encode_ErrorResponse errored_ErrorStream open_sink)))"
    using ErrorStream_WriteTo_at_end [OF e, of encode_ErrorResponse open_sink]
    by (simp add: errored_ErrorStream_eq ErrorStream_Close_def closer_Close_def)
  have d: "\<not> closed (ErrorStream_drain errored_ErrorStream)"
    using ErrorStream_drain_stopped [of errored_ErrorStream]
    by (simp add: errored_ErrorStream_eq)
  show ?thesis using a b c d by simp
qed

text \<open>
  Claim C7, as the code has it. The claim needs a sink that accepts every write: a
  sink that rejects a record ends \<open>WriteTo\<close> with the sink's error and the count of
  the bytes it took. With a sink that accepts every write: over N valid records and then the
  end of the input, \<open>ErrorStream.WriteTo\<close> returns the sum of the sizes of the N
  encoded records, as an \<open>int64\<close>, and a nil error, when the stream held no error and
  the closer, if any, closes without error; over an input whose record at position
  k is malformed it returns the sum of the sizes of the first k - 1 encoded records
  and the decode error. The sink has received exactly these records. The same holds
  of \<open>AuditStream.WriteTo\<close>.
\<close>

theorem C7_WriteTo_byte_count:
  assumes "room w = None"
    and "decoder s = map Rec rs" "err s = None" "close_succeeds (closer s)"
    and "decoder s' = map Rec rs' @ bad # rest" "bad = Malformed e \<or> bad = Broken e" "e \<noteq> EOF"
    and "room v = None"
    and "decoder t = map Rec qs" "err t = None" "close_succeeds (closer t)"
    and "decoder t' = map Rec qs' @ bad' # rest'" "bad' = Malformed e' \<or> bad' = Broken e'"
      "e' \<noteq> EOF"
  shows "fst (ErrorStream_WriteTo enc s w) =
           (word_of_nat (\<Sum>r\<leftarrow>rs. length (enc r)), None)
    \<and> ((\<Sum>r\<leftarrow>rs. length (enc r)) < 2 ^ 63 \<longrightarrow>
         sint (fst (fst (ErrorStream_WriteTo enc s w))) = int (\<Sum>r\<leftarrow>rs. length (enc r)))
    \<and> sunk (snd (snd (ErrorStream_WriteTo enc s w))) = sunk w @ concat (map enc rs)
    \<and> fst (ErrorStream_WriteTo enc s' w) =
           (word_of_nat (\<Sum>r\<leftarrow>rs'. length (enc r)), Some e)
    \<and> ((\<Sum>r\<leftarrow>rs'. length (enc r)) < 2 ^ 63 \<longrightarrow>
         sint (fst (fst (ErrorStream_WriteTo enc s' w))) = int (\<Sum>r\<leftarrow>rs'. length (enc r)))
    \<and> sunk (snd (snd (ErrorStream_WriteTo enc s' w))) = sunk w @ concat (map enc rs')
    \<and> fst (AuditStream_WriteTo enc' t v) =
           (word_of_nat (\<Sum>r\<leftarrow>qs. length (enc' r)), None)
    \<and> ((\<Sum>r\<leftarrow>qs. length (enc' r)) < 2 ^ 63 \<longrightarrow>
         sint (fst (fst (AuditStream_WriteTo enc' t v))) = int (\<Sum>r\<leftarrow>qs. length (enc' r)))
    \<and> sunk (snd (snd (AuditStream_WriteTo enc' t v))) = sunk v @ concat (map enc' qs)
    \<and> fst (AuditStream_WriteTo enc' t' v) =
           (word_of_nat (\<Sum>r\<leftarrow>qs'. length (enc' r)), Some e')
    \<and> ((\<Sum>r\<leftarrow>qs'. length (enc' r)) < 2 ^ 63 \<longrightarrow>
         sint (fst (fst (AuditStream_WriteTo enc' t' v))) = int (\<Sum>r\<leftarrow>qs'. length (enc' r)))
    \<and> sunk (snd (snd (AuditStream_WriteTo enc' t' v))) = sunk v @ concat (map enc' qs')"
  using ErrorStream_WriteTo_records [OF assms(1-4), of enc]
    ErrorStream_WriteTo_bad [OF assms(1,5-7), of enc]
    AuditStream_WriteTo_records [OF assms(8-11), of enc']
    AuditStream_WriteTo_bad [OF assms(8,12-14), of enc']
  by (simp add: int64_of_nat)

text \<open>
  Two error records of 16 and 17 bytes; one record before a malformed one; one
  audit record; an audit input that is not JSON.
\<close>

theorem C7_witness:
  "fst (ErrorStream_WriteTo encode_ErrorResponse
      (NewErrorStream \<lparr>input = [Rec \<lparr>resp_Message = ''a''\<rparr>, Rec \<lparr>resp_Message = ''bc''\<rparr>],
         as_closer = Some \<lparr>close_err = None, close_calls = 0\<rparr>\<rparr>) open_sink) = (33, None)
   \<and> sint (fst (fst (ErrorStream_WriteTo encode_ErrorResponse
      (NewErrorStream \<lparr>input = [Rec \<lparr>resp_Message = ''a''\<rparr>, Rec \<lparr>resp_Message = ''bc''\<rparr>],
         as_closer = Some \<lparr>close_err = None, close_calls = 0\<rparr>\<rparr>) open_sink))) = 33
   \<and> fst (ErrorStream_WriteTo encode_ErrorResponse
      (NewErrorStream \<lparr>input = [Rec \<lparr>resp_Message = ''a''\<rparr>,
                               Malformed (UnmarshalTypeError ''number'' ''string''),
                               Rec \<lparr>resp_Message = ''bc''\<rparr>],
         as_closer = None\<rparr>) open_sink) = (16, Some (UnmarshalTypeError ''number'' ''string''))
   \<and> fst (AuditStream_WriteTo encode_path
      (NewAuditStream \<lparr>input = [Rec zero_AuditResponse], as_closer = None\<rparr>) open_sink)
     = (1, None)
   \<and> fst (AuditStream_WriteTo encode_path
      (NewAuditStream \<lparr>input = [Broken (SyntaxError ''invalid character'')],
         as_closer = None\<rparr>) open_sink)
     = (0, Some (SyntaxError ''invalid character''))"
  using C7_WriteTo_byte_count
    [of open_sink
        "NewErrorStream \<lparr>input = [Rec \<lparr>resp_Message = ''a''\<rparr>, Rec \<lparr>resp_Message = ''bc''\<rparr>],
           as_closer = Some \<lparr>close_err = None, close_calls = 0\<rparr>\<rparr>"
        "[\<lparr>resp_Message = ''a''\<rparr>, \<lparr>resp_Message = ''bc''\<rparr>]"
        "NewErrorStream \<lparr>input = [Rec \<lparr>resp_Message = ''a''\<rparr>,
                               Malformed (UnmarshalTypeError ''number'' ''string''),
                               Rec \<lparr>resp_Message = ''bc''\<rparr>],
           as_closer = None\<rparr>"
        "[\<lparr>resp_Message = ''a''\<rparr>]"
        "Malformed (UnmarshalTypeError ''number'' ''string'')"
        "[Rec \<lparr>resp_Message = ''bc''\<rparr>]"
        "UnmarshalTypeError ''number'' ''string''"
        open_sink
        "NewAuditStream \<lparr>input = [Rec zero_AuditResponse], as_closer = None\<rparr>"
        "[zero_AuditResponse]"
        "NewAuditStream \<lparr>input = [Broken (SyntaxError ''invalid character'')],
           as_closer = None\<rparr>"
        "[]" "Broken (SyntaxError ''invalid character'')" "[]"
        "SyntaxError ''invalid character''"
        encode_ErrorResponse encode_path]
  by (simp add: NewErrorStream_def NewAuditStream_def open_sink_def encode_ErrorResponse_def
      quoted_def encode_path_def zero_AuditResponse_def)

text \<open>
  The claim as stated fails with a sink that takes nothing: over one valid record of
  16 bytes and then the end of the input, \<open>WriteTo\<close> returns no byte and the sink's
  error; with a sink that takes ten bytes it returns ten and the sink's error.
\<close>

theorem C7_counterexample:
  "(\<Sum>r\<leftarrow>[\<lparr>resp_Message = ''a''\<rparr>]. length (encode_ErrorResponse r)) = 16
   \<and> fst (ErrorStream_WriteTo encode_ErrorResponse
        (NewErrorStream \<lparr>input = [Rec \<lparr>resp_Message = ''a''\<rparr>], as_closer = None\<rparr>)
        full_sink) = (0, Some (IOError ''short write''))
   \<and> fst (ErrorStream_WriteTo encode_ErrorResponse
        (NewErrorStream \<lparr>input = [Rec \<lparr>resp_Message = ''a''\<rparr>], as_closer = None\<rparr>)
        \<lparr>sunk = [], room = Some 10, full = IOError ''short write''\<rparr>)
       = (10, Some (IOError ''short write''))"
proof -
  let ?s0 = "NewErrorStream \<lparr>input = [Rec \<lparr>resp_Message = ''a''\<rparr>], as_closer = None\<rparr>"
  let ?w10 = "\<lparr>sunk = [], room = Some 10, full = IOError ''short write''\<rparr>"
  let ?cw0 = "\<lparr>W = full_sink, N = 0\<rparr>"
  let ?cw10 = "\<lparr>W = ?w10, N = 0\<rparr>"
  have len: "length (encode_ErrorResponse \<lparr>resp_Message = ''a''\<rparr>) = 16"
    by (simp add: encode_ErrorResponse_def quoted_def)
  have d: "decoder ?s0 = [Rec \<lparr>resp_Message = ''a''\<rparr>]"
    by (simp add: NewErrorStream_def)
  have e0: "Encode encode_ErrorResponse ?cw0 \<lparr>resp_Message = ''a''\<rparr> =
      (Some (IOError ''short write''), ?cw0)"
    by (simp add: Encode_def countWriter_Write_def writer_Write_def full_sink_def len)
  have e10: "Encode encode_ErrorResponse ?cw10 \<lparr>resp_Message = ''a''\<rparr> =
      (Some (IOError ''short write''),
       \<lparr>W = \<lparr>sunk = take 10 (encode_ErrorResponse \<lparr>resp_Message = ''a''\<rparr>),
              room = Some 0, full = IOError ''short write''\<rparr>,
        N = 10\<rparr>)"
    by (simp add: Encode_def countWriter_Write_def writer_Write_def len)
  have r0: "fst (ErrorStream_WriteTo_loop encode_ErrorResponse ?s0 ?cw0) =
      (0, Some (IOError ''short write''))"
    by (simp add: ErrorStream_loop_Rec_fail [OF d e0])
  have r10: "fst (ErrorStream_WriteTo_loop encode_ErrorResponse ?s0 ?cw10) =
      (10, Some (IOError ''short write''))"
    by (simp add: ErrorStream_loop_Rec_fail [OF d e10])
  show ?thesis
    using len r0 r10 by (simp add: ErrorStream_WriteTo_parts)
qed

text \<open>
  Claim C8. Once a stream is closed or holds an error, every call of \<open>Next\<close> returns
  false and leaves the stream as it is; in particular the decoder is not read.
\<close>

theorem C8_Next_after_end_reads_nothing:
  assumes "notnil (err s) \<or> closed s" and "notnil (err t) \<or> closed t"
  shows "ErrorStream_Next s = (False, s) \<and> AuditStream_Next t = (False, t)
    \<and> ErrorStream_Nexts n s = (replicate n (False, event s), s)
    \<and> AuditStream_Nexts n t = (replicate n (False, event t), t)"
  using assms
  by (simp add: ErrorStream_Next_stopped AuditStream_Next_stopped
      ErrorStream_Nexts_stopped AuditStream_Nexts_stopped)

text \<open>The errored stream, and an audit stream closed before its record was read.\<close>

theorem C8_witness:
  "notnil (err errored_ErrorStream)
   \<and> closed (snd (AuditStream_Close (NewAuditStream \<lparr>input = [Rec zero_AuditResponse], as_closer = None\<rparr>)))
   \<and> ErrorStream_Next errored_ErrorStream = (False, errored_ErrorStream)
   \<and> decoder (snd (AuditStream_Next (snd (AuditStream_Close
        (NewAuditStream \<lparr>input = [Rec zero_AuditResponse], as_closer = None\<rparr>)))))
       = [Rec zero_AuditResponse]
   \<and> fst (AuditStream_Next (snd (AuditStream_Close
        (NewAuditStream \<lparr>input = [Rec zero_AuditResponse], as_closer = None\<rparr>)))) = False"
  using C8_Next_after_end_reads_nothing [of errored_ErrorStream
      "snd (AuditStream_Close (NewAuditStream \<lparr>input = [Rec zero_AuditResponse], as_closer = None\<rparr>))" 0]
  by (simp add: errored_ErrorStream_eq NewAuditStream_def AuditStream_Close_def)

text \<open>
  Claim C9, as the code has it. The field \<open>response.time\<close> is a \<open>time.Duration\<close>, which
  is unmarshalled from a JSON number of nanoseconds. With \<open>"time":15000000\<close> the
  record of the scenario is decoded by \<open>AuditStream.Next\<close>, which returns true, into
  the event with the timestamp and the address as parsed, the path, the identity,
  the status code 200 and the response time of 15 ms. With \<open>"time":"15ms"\<close> \<open>Next\<close>
  returns false and stores an \<open>UnmarshalTypeError\<close>.
\<close>

theorem C9_audit_record_decoded:
  assumes "parse_Time um ''2024-01-01T00:00:00Z'' = Some ts"
    and "parse_IP um ''10.0.0.1'' = Some ip"
  shows "fst (AuditStream_Next (NewAuditStream
            \<lparr>input = json_Decoder (unmarshal_AuditResponse um)
                       [Value (audit_record (JInt 15000000))],
             as_closer = c\<rparr>)) = True
    \<and> AuditStream_Event (snd (AuditStream_Next (NewAuditStream
            \<lparr>input = json_Decoder (unmarshal_AuditResponse um)
                       [Value (audit_record (JInt 15000000))],
             as_closer = c\<rparr>))) =
        \<lparr>Timestamp = ts, APIPath = ''/v1/key/create'', ClientIP = ip,
         ClientIdentity = ''abc123'', StatusCode = 200, ResponseTime = 15000000\<rparr>
    \<and> fst (AuditStream_Next (NewAuditStream
            \<lparr>input = json_Decoder (unmarshal_AuditResponse um)
                       [Value (audit_record (JString ''15ms''))],
             as_closer = c\<rparr>)) = False
    \<and> err (snd (AuditStream_Next (NewAuditStream
            \<lparr>input = json_Decoder (unmarshal_AuditResponse um)
                       [Value (audit_record (JString ''15ms''))],
             as_closer = c\<rparr>))) = Some (UnmarshalTypeError ''string'' ''time.Duration'')"
  by (cases c)
     (simp_all add: NewAuditStream_def json_Decoder_def AuditStream_Next_def
        AuditStream_Event_def AuditEvent_of_def
        unmarshal_audit_record_ns [OF assms] unmarshal_audit_record_15ms [OF assms])

text \<open>With the sample parsers.\<close>

theorem C9_witness:
  "AuditStream_Event (snd (AuditStream_Next (NewAuditStream
            \<lparr>input = json_Decoder (unmarshal_AuditResponse sample_unmarshalers)
                       [Value (audit_record (JInt 15000000))],
             as_closer = None\<rparr>))) =
        \<lparr>Timestamp = sample_Time, APIPath = ''/v1/key/create'', ClientIP = sample_IP,
         ClientIdentity = ''abc123'', StatusCode = 200, ResponseTime = 15000000\<rparr>
   \<and> fst (AuditStream_Next (NewAuditStream
            \<lparr>input = json_Decoder (unmarshal_AuditResponse sample_unmarshalers)
                       [Value (audit_record (JInt 15000000))],
             as_closer = None\<rparr>)) = True"
  using C9_audit_record_decoded [of sample_unmarshalers sample_Time sample_IP None]
  by (simp add: sample_unmarshalers_def)

text \<open>
  The claim as stated fails: the record with \<open>"time":"15ms"\<close> is a decode error.
\<close>

theorem C9_counterexample:
  "fst (AuditStream_Next (NewAuditStream
            \<lparr>input = json_Decoder (unmarshal_AuditResponse sample_unmarshalers)
                       [Value (audit_record (JString ''15ms''))],
             as_closer = None\<rparr>)) = False
   \<and> err (snd (AuditStream_Next (NewAuditStream
            \<lparr>input = json_Decoder (unmarshal_AuditResponse sample_unmarshalers)
                       [Value (audit_record (JString ''15ms''))],
             as_closer = None\<rparr>))) = Some (UnmarshalTypeError ''string'' ''time.Duration'')"
proof -
  have u: "unmarshal_AuditResponse sample_unmarshalers (audit_record (JString ''15ms'')) =
      Inl (UnmarshalTypeError ''string'' ''time.Duration'')"
    by (rule unmarshal_audit_record_15ms [of _ sample_Time sample_IP])
       (simp_all add: sample_unmarshalers_def)
  show ?thesis
    by (simp add: NewAuditStream_def json_Decoder_def AuditStream_Next_def u)
qed

text \<open>
  Claim C10. \<open>WriteTo\<close> never changes the stored event: after the call \<open>Event()\<close>
  returns what it returned before, for every stream, encoder and sink.
\<close>

theorem C10_WriteTo_keeps_event:
  "ErrorStream_Event (fst (snd (ErrorStream_WriteTo enc s w))) = ErrorStream_Event s
   \<and> AuditStream_Event (fst (snd (AuditStream_WriteTo enc' t w'))) = AuditStream_Event t"
  by (simp add: ErrorStream_Event_def AuditStream_Event_def
      ErrorStream_WriteTo_event AuditStream_WriteTo_event)

end
